theory Spec2Isabelle
  imports Main "HOL-Library.Sublist"
begin

section \<open>Strings and property reads\<close>

text \<open>
  A string of the program is a sequence of UTF-16 code units; a code unit is kept as a
  natural number (below 65536 for every string the program can hold). ASCII literals
  are written with \<open>str\<close>, other characters by their code unit.
\<close>

type_synonym jsstring = "nat list"

definition str :: "string \<Rightarrow> jsstring" where
  "str s = map of_char s"

text \<open>
  The two lookup tables of \<^verbatim>\<open>normalize.ts\<close> are object literals, and the program reads
  them with \<^verbatim>\<open>table[key] ?? key\<close>. A property read on an object literal that has no own
  property of that name continues on \<^verbatim>\<open>Object.prototype\<close>; so the read yields a value
  that is a string (an own entry), a built-in function, or \<^verbatim>\<open>Object.prototype\<close> itself
  (through the accessor \<^verbatim>\<open>__proto__\<close>), and \<^verbatim>\<open>undefined\<close> (here \<open>None\<close>) only when the
  name is found in neither place.
\<close>

datatype jsval = JString jsstring | JObjectPrototype | JFunction jsstring

text \<open>The operator \<^verbatim>\<open>??\<close>, with \<^verbatim>\<open>undefined\<close> as \<open>None\<close>.\<close>

definition or_else :: "'a option \<Rightarrow> 'a \<Rightarrow> 'a" where
  "or_else x d = (case x of None \<Rightarrow> d | Some v \<Rightarrow> v)"

definition Object_prototype :: "jsstring \<Rightarrow> jsval option" where
  "Object_prototype k =
     (if k = str ''constructor'' then Some (JFunction (str ''Object''))
      else if k = str ''__proto__'' then Some JObjectPrototype
      else if k \<in> set (map str [''hasOwnProperty'', ''isPrototypeOf'',
                ''propertyIsEnumerable'', ''toLocaleString'', ''toString'', ''valueOf'',
                ''__defineGetter__'', ''__defineSetter__'', ''__lookupGetter__'',
                ''__lookupSetter__''])
      then Some (JFunction k)
      else None)"

definition get_property :: "(jsstring \<times> jsstring) list \<Rightarrow> jsstring \<Rightarrow> jsval option" where
  "get_property obj k =
     (case map_of obj k of Some v \<Rightarrow> Some (JString v) | None \<Rightarrow> Object_prototype k)"

text \<open>
  \<^verbatim>\<open>Array.prototype.join\<close> converts every element with ToString: a string is itself,
  \<^verbatim>\<open>Object.prototype\<close> prints as \<^verbatim>\<open>[object Object]\<close>, a built-in function as its
  native source text (the text below is the one V8 and JavaScriptCore print).
\<close>

fun ToString :: "jsval \<Rightarrow> jsstring" where
  "ToString (JString s) = s"
| "ToString JObjectPrototype = str ''[object Object]''"
| "ToString (JFunction name) = str ''function '' @ name @ str ''() { [native code] }''"

section \<open>Numbers\<close>

text \<open>
  A number of the program is an IEEE 754 double. \<open>Finite s m e\<close> is the double
  \<open>(-1)\<^sup>s \<sqdot> m \<sqdot> 2\<^sup>e\<close> in its unique normal form: \<open>m < 2\<^sup>5\<^sup>3\<close>, and either
  \<open>2\<^sup>5\<^sup>2 \<le> m\<close> with \<open>-1074 \<le> e \<le> 971\<close>, or \<open>e = -1074\<close> (subnormal), or \<open>m = 0\<close>
  and \<open>e = 0\<close> (the two zeros). \<open>Infinity s\<close> is the infinity of sign \<open>s\<close>
  (\<open>True\<close> is negative).
\<close>

datatype number = NaN | Infinity bool | Finite bool nat int

fun bits :: "nat \<Rightarrow> nat" where
  "bits n = (if n = 0 then 0 else Suc (bits (n div 2)))"

declare bits.simps [simp del]

text \<open>
  \<open>round_to_double s n d\<close> is the double nearest to the rational \<open>\<plusminus> n / d\<close> (for
  \<open>0 < d\<close>), ties to the even significand, overflow to infinity: with \<open>k\<close> the
  difference of the bit lengths, \<open>floor_log2 n d k\<close> is the binary exponent of
  \<open>n / d\<close>; the quotient is rounded at the exponent \<open>e\<close> of the last place, which is
  never below \<open>-1074\<close>.
\<close>

definition floor_log2 :: "nat \<Rightarrow> nat \<Rightarrow> int \<Rightarrow> int" where
  "floor_log2 n d k =
     (if (if 0 \<le> k then d * 2 ^ nat k \<le> n else d \<le> n * 2 ^ nat (- k)) then k else k - 1)"

definition round_half_even :: "nat \<Rightarrow> nat \<Rightarrow> nat" where
  "round_half_even n d =
     (if d < 2 * (n mod d) \<or> (2 * (n mod d) = d \<and> odd (n div d)) then n div d + 1
      else n div d)"

definition pack :: "bool \<Rightarrow> int \<Rightarrow> nat \<Rightarrow> number" where
  "pack sg e q =
     (if q = 0 then Finite sg 0 0
      else if q = 2 ^ 53 then (if 971 < e + 1 then Infinity sg else Finite sg (2 ^ 52) (e + 1))
      else if 971 < e then Infinity sg
      else Finite sg q e)"

definition round_at :: "bool \<Rightarrow> nat \<Rightarrow> nat \<Rightarrow> int \<Rightarrow> number" where
  "round_at sg n d e =
     pack sg e (if e < 0 then round_half_even (n * 2 ^ nat (- e)) d
                else round_half_even n (d * 2 ^ nat e))"

definition round_to_double :: "bool \<Rightarrow> nat \<Rightarrow> nat \<Rightarrow> number" where
  "round_to_double sg n d =
     (if n = 0 then Finite sg 0 0
      else round_at sg n d
             (max (floor_log2 n d (int (bits n) - int (bits d)) - 52) (- 1074)))"

definition scaled_to_double :: "bool \<Rightarrow> nat \<Rightarrow> int \<Rightarrow> number" where
  "scaled_to_double sg n e =
     (if 0 \<le> e then round_to_double sg (n * 2 ^ nat e) 1
      else round_to_double sg n (2 ^ nat (- e)))"

definition signed :: "bool \<Rightarrow> nat \<Rightarrow> int" where
  "signed sg n = (if sg then - int n else int n)"

definition align :: "nat \<Rightarrow> int \<Rightarrow> int \<Rightarrow> nat" where
  "align m e e' = m * 2 ^ nat (e - min e e')"

definition of_exact :: "int \<Rightarrow> int \<Rightarrow> bool \<Rightarrow> number" where
  "of_exact v e zero_sign =
     (if v = 0 then Finite zero_sign 0 0 else scaled_to_double (v < 0) (nat \<bar>v\<bar>) e)"

fun num_add :: "number \<Rightarrow> number \<Rightarrow> number" where
  "num_add NaN _ = NaN"
| "num_add _ NaN = NaN"
| "num_add (Infinity a) (Infinity b) = (if a = b then Infinity a else NaN)"
| "num_add (Infinity a) (Finite _ _ _) = Infinity a"
| "num_add (Finite _ _ _) (Infinity b) = Infinity b"
| "num_add (Finite s1 m1 e1) (Finite s2 m2 e2) =
     of_exact (signed s1 (align m1 e1 e2) + signed s2 (align m2 e2 e1)) (min e1 e2)
       (m1 = 0 \<and> m2 = 0 \<and> s1 \<and> s2)"

fun num_neg :: "number \<Rightarrow> number" where
  "num_neg NaN = NaN"
| "num_neg (Infinity s) = Infinity (\<not> s)"
| "num_neg (Finite s m e) = Finite (\<not> s) m e"

definition num_sub :: "number \<Rightarrow> number \<Rightarrow> number" where
  "num_sub a b = num_add a (num_neg b)"

fun Math_abs :: "number \<Rightarrow> number" where
  "Math_abs NaN = NaN"
| "Math_abs (Infinity s) = Infinity False"
| "Math_abs (Finite s m e) = Finite False m e"

text \<open>The operators \<^verbatim>\<open><=\<close> and \<^verbatim>\<open>===\<close> on numbers: false on NaN, the zeros equal.\<close>

fun num_le :: "number \<Rightarrow> number \<Rightarrow> bool" where
  "num_le NaN _ = False"
| "num_le _ NaN = False"
| "num_le (Infinity a) (Infinity b) = (if b then a else True)"
| "num_le (Infinity a) (Finite _ _ _) = a"
| "num_le (Finite _ _ _) (Infinity b) = (\<not> b)"
| "num_le (Finite s1 m1 e1) (Finite s2 m2 e2) =
     (signed s1 (align m1 e1 e2) \<le> signed s2 (align m2 e2 e1))"

fun strict_equals :: "number \<Rightarrow> number \<Rightarrow> bool" where
  "strict_equals NaN _ = False"
| "strict_equals _ NaN = False"
| "strict_equals (Finite s1 m1 e1) (Finite s2 m2 e2) =
     ((m1 = 0 \<and> m2 = 0) \<or> (s1 = s2 \<and> m1 = m2 \<and> e1 = e2))"
| "strict_equals a b = (a = b)"

fun Number_isFinite :: "number \<Rightarrow> bool" where
  "Number_isFinite (Finite _ _ _) = True"
| "Number_isFinite _ = False"

definition Number_EPSILON :: number where
  "Number_EPSILON = Finite False (2 ^ 52) (- 104)"

definition num :: "nat \<Rightarrow> number" where
  "num n = round_to_double False n 1"

definition decimal :: "nat \<Rightarrow> nat \<Rightarrow> number" where
  "decimal n k = round_to_double False n (10 ^ k)"

text \<open>
  \<^verbatim>\<open>Number(string)\<close>: the text is trimmed; empty text is \<open>+0\<close>; a binary, octal
  or hexadecimal integer literal, or a signed decimal literal (with \<^verbatim>\<open>Infinity\<close>,
  fraction and exponent) is its value rounded to a double; any other text is NaN.
\<close>

definition isSpace :: "nat \<Rightarrow> bool" where
  "isSpace c \<longleftrightarrow>
     c \<in> {0x09, 0x0a, 0x0b, 0x0c, 0x0d, 0x20, 0xa0, 0x1680, 0x2028, 0x2029, 0x202f,
          0x205f, 0x3000, 0xfeff} \<or> (0x2000 \<le> c \<and> c \<le> 0x200a)"

definition trim :: "jsstring \<Rightarrow> jsstring" where
  "trim s = rev (dropWhile isSpace (rev (dropWhile isSpace s)))"

definition isDigit :: "nat \<Rightarrow> bool" where
  "isDigit c \<longleftrightarrow> 0x30 \<le> c \<and> c \<le> 0x39"

definition isRadixDigit :: "nat \<Rightarrow> nat \<Rightarrow> bool" where
  "isRadixDigit radix c \<longleftrightarrow>
     (if radix = 16 then isDigit c \<or> (0x61 \<le> c \<and> c \<le> 0x66) \<or> (0x41 \<le> c \<and> c \<le> 0x46)
      else 0x30 \<le> c \<and> c < 0x30 + radix)"

definition digit_of :: "nat \<Rightarrow> nat" where
  "digit_of c =
     (if isDigit c then c - 0x30
      else if 0x61 \<le> c then c - 0x61 + 10
      else c - 0x41 + 10)"

definition digits_value :: "nat \<Rightarrow> jsstring \<Rightarrow> nat" where
  "digits_value radix ds = foldl (\<lambda>a c. radix * a + digit_of c) 0 ds"

definition radix_of :: "nat \<Rightarrow> nat" where
  "radix_of x =
     (if x = 0x62 \<or> x = 0x42 then 2
      else if x = 0x6f \<or> x = 0x4f then 8
      else if x = 0x78 \<or> x = 0x58 then 16
      else 0)"

definition nondecimal_literal :: "jsstring \<Rightarrow> nat option" where
  "nondecimal_literal t =
     (case t of
        z # x # rest \<Rightarrow>
          if z = 0x30 \<and> radix_of x \<noteq> 0 \<and> rest \<noteq> [] \<and> list_all (isRadixDigit (radix_of x)) rest
          then Some (digits_value (radix_of x) rest) else None
      | _ \<Rightarrow> None)"

definition signed_integer :: "jsstring \<Rightarrow> int option" where
  "signed_integer r =
     (if r \<noteq> [] \<and> hd r = 0x2d
      then (if tl r \<noteq> [] \<and> list_all isDigit (tl r)
            then Some (- int (digits_value 10 (tl r))) else None)
      else if r \<noteq> [] \<and> hd r = 0x2b
      then (if tl r \<noteq> [] \<and> list_all isDigit (tl r)
            then Some (int (digits_value 10 (tl r))) else None)
      else if r \<noteq> [] \<and> list_all isDigit r then Some (int (digits_value 10 r))
      else None)"

definition exponent_part :: "jsstring \<Rightarrow> int option" where
  "exponent_part r =
     (case r of
        [] \<Rightarrow> Some 0
      | c # r' \<Rightarrow> if c = 0x65 \<or> c = 0x45 then signed_integer r' else None)"

definition decimal_value :: "bool \<Rightarrow> nat \<Rightarrow> int \<Rightarrow> number" where
  "decimal_value sg m p =
     (if 0 \<le> p then round_to_double sg (m * 10 ^ nat p) 1
      else round_to_double sg m (10 ^ nat (- p)))"

definition decimal_parts :: "bool \<Rightarrow> jsstring \<Rightarrow> jsstring \<Rightarrow> jsstring \<Rightarrow> number" where
  "decimal_parts sg ip fp r =
     (if ip = [] \<and> fp = [] then NaN
      else (case exponent_part r of
              None \<Rightarrow> NaN
            | Some x \<Rightarrow> decimal_value sg (digits_value 10 (ip @ fp)) (x - int (length fp))))"

definition after_integer :: "bool \<Rightarrow> jsstring \<Rightarrow> jsstring \<Rightarrow> number" where
  "after_integer sg ip r =
     (if r \<noteq> [] \<and> hd r = 0x2e
      then decimal_parts sg ip (takeWhile isDigit (tl r)) (dropWhile isDigit (tl r))
      else decimal_parts sg ip [] r)"

definition decimal_literal :: "bool \<Rightarrow> jsstring \<Rightarrow> number" where
  "decimal_literal sg u =
     (if u = str ''Infinity'' then Infinity sg
      else after_integer sg (takeWhile isDigit u) (dropWhile isDigit u))"

definition numeric_literal :: "jsstring \<Rightarrow> number" where
  "numeric_literal t =
     (if t = [] then Finite False 0 0
      else (case nondecimal_literal t of
              Some n \<Rightarrow> round_to_double False n 1
            | None \<Rightarrow>
                if hd t = 0x2b then decimal_literal False (tl t)
                else if hd t = 0x2d then decimal_literal True (tl t)
                else decimal_literal False t))"

definition Number :: "jsstring \<Rightarrow> number" where
  "Number s = numeric_literal (trim s)"

text \<open>
  \<^verbatim>\<open>parseInt(string, 10)\<close>: leading white space and a sign are skipped, the longest
  prefix of decimal digits is the value; NaN when there is no digit.
\<close>

definition digits_prefix :: "bool \<Rightarrow> jsstring \<Rightarrow> number" where
  "digits_prefix sg ds = (if ds = [] then NaN else round_to_double sg (digits_value 10 ds) 1)"

definition signed_prefix :: "jsstring \<Rightarrow> number" where
  "signed_prefix t =
     (if t \<noteq> [] \<and> hd t = 0x2d then digits_prefix True (takeWhile isDigit (tl t))
      else if t \<noteq> [] \<and> hd t = 0x2b then digits_prefix False (takeWhile isDigit (tl t))
      else digits_prefix False (takeWhile isDigit t))"

definition parseInt10 :: "jsstring \<Rightarrow> number" where
  "parseInt10 s = signed_prefix (dropWhile isSpace s)"

definition Number_isNaN :: "number \<Rightarrow> bool" where
  "Number_isNaN x \<longleftrightarrow> x = NaN"

text \<open>
  What the language run time supplies and the repository does not define: the Unicode
  case mapping \<^verbatim>\<open>String.prototype.toLowerCase\<close>, the regular expression engine
  (\<open>RegExp\<close> yields \<open>None\<close> when the constructor throws a SyntaxError, and otherwise
  the \<^verbatim>\<open>test\<close> predicate of the compiled expression), and the digits chosen when a
  number that is not a safe integer is rendered as a string. They are parameters of the
  model.
\<close>

record runtime =
  toLowerCase :: "jsstring \<Rightarrow> jsstring"
  RegExp :: "jsstring \<Rightarrow> (jsstring \<Rightarrow> bool) option"
  shortest_digits :: "number \<Rightarrow> jsstring"

text \<open>
  \<^verbatim>\<open>Number.prototype.toString\<close>: an integer of magnitude at most \<open>2\<^sup>5\<^sup>3\<close> prints as
  its decimal numeral (both zeros as \<^verbatim>\<open>0\<close>).
\<close>

fun dec :: "nat \<Rightarrow> jsstring" where
  "dec n = (if n < 10 then [0x30 + n] else dec (n div 10) @ [0x30 + n mod 10])"

declare dec.simps [simp del]

fun safe_integer :: "number \<Rightarrow> nat option" where
  "safe_integer (Finite s m e) =
     (if 0 \<le> e then (if m * 2 ^ nat e \<le> 2 ^ 53 then Some (m * 2 ^ nat e) else None)
      else if m mod 2 ^ nat (- e) = 0 then Some (m div 2 ^ nat (- e))
      else None)"
| "safe_integer _ = None"

fun Number_toString :: "runtime \<Rightarrow> number \<Rightarrow> jsstring" where
  "Number_toString rt NaN = str ''NaN''"
| "Number_toString rt (Infinity s) = (if s then str ''-Infinity'' else str ''Infinity'')"
| "Number_toString rt (Finite s m e) =
     (case safe_integer (Finite s m e) of
        Some n \<Rightarrow> (if s \<and> n \<noteq> 0 then 0x2d # dec n else dec n)
      | None \<Rightarrow> shortest_digits rt (Finite s m e))"

section \<open>normalize.ts\<close>

definition FULLWIDTH_OFFSET :: nat where
  "FULLWIDTH_OFFSET = 0xff10 - 0x30"

definition fullWidthMap :: "(jsstring \<times> jsstring) list" where
  "fullWidthMap =
     [([0xff0c], str '',''), ([0x3002], str ''.''), ([0xff1b], str '';''),
      ([0xff1a], str '':''), ([0xff01], str ''!''), ([0xff1f], str ''?''),
      ([0xff08], str ''(''), ([0xff09], str '')''), ([0x3010], str ''[''),
      ([0x3011], str '']''), ([0x201c], [0x22]), ([0x201d], [0x22]),
      ([0x2018], [0x27]), ([0x2019], [0x27]), ([0x3001], str '',''),
      ([0x3000], str '' '')]"

definition zhSynonyms :: "(jsstring \<times> jsstring) list" where
  "zhSynonyms =
     [([0x5317, 0x4eac, 0x65f6, 0x95f4], str ''utc+8''),
      (str ''utc+8'', str ''utc+8''),
      ([0x4e1c, 0x516b, 0x533a], str ''utc+8'')]"

record NormalizeOptions =
  lowercase :: "bool option"

definition toHalfWidth_char :: "nat \<Rightarrow> jsval" where
  "toHalfWidth_char code =
     (if 0xff10 \<le> code \<and> code \<le> 0xff19 then JString [code - FULLWIDTH_OFFSET]
      else if 0xff21 \<le> code \<and> code \<le> 0xff3a then JString [code - 0xfee0]
      else if 0xff41 \<le> code \<and> code \<le> 0xff5a then JString [code - 0xfee0]
      else or_else (get_property fullWidthMap [code]) (JString [code]))"

definition toHalfWidth :: "jsstring \<Rightarrow> jsstring" where
  "toHalfWidth input = concat (map (\<lambda>code. ToString (toHalfWidth_char code)) input)"

text \<open>
  \<^verbatim>\<open>trim\<close> and the class \<^verbatim>\<open>\s\<close> use the same characters, \<open>isSpace\<close>: WhiteSpace
  and LineTerminator of the language.
\<close>

function replace_spaces :: "jsstring \<Rightarrow> jsstring" where
  "replace_spaces [] = []"
| "replace_spaces (c # cs) =
     (if isSpace c then 0x20 # replace_spaces (dropWhile isSpace cs)
      else c # replace_spaces cs)"
  by pat_completeness auto
termination
  by (relation "measure length") (auto simp: less_Suc_eq_le length_dropWhile_le)

definition normalizeWhitespace :: "jsstring \<Rightarrow> jsstring" where
  "normalizeWhitespace input = replace_spaces (trim input)"

fun split_space :: "jsstring \<Rightarrow> jsstring list" where
  "split_space [] = [[]]"
| "split_space (c # cs) =
     (if c = 0x20 then [] # split_space cs
      else (case split_space cs of
              w # ws \<Rightarrow> (c # w) # ws
            | [] \<Rightarrow> [[c]]))"

fun join_space :: "jsstring list \<Rightarrow> jsstring" where
  "join_space [] = []"
| "join_space [w] = w"
| "join_space (w # ws) = w @ 0x20 # join_space ws"

definition zh_word :: "jsstring \<Rightarrow> jsstring" where
  "zh_word word = ToString (or_else (get_property zhSynonyms word) (JString word))"

definition normalizeText :: "runtime \<Rightarrow> jsstring \<Rightarrow> NormalizeOptions \<Rightarrow> jsstring" where
  "normalizeText rt val options =
     (let halfWidth = toHalfWidth val;
          collapsed = normalizeWhitespace halfWidth;
          lower = (if lowercase options \<noteq> Some False then toLowerCase rt collapsed
                   else collapsed);
          unified = join_space (map zh_word (split_space lower))
      in unified)"

definition padStart :: "nat \<Rightarrow> nat \<Rightarrow> jsstring \<Rightarrow> jsstring" where
  "padStart n c s = replicate (n - length s) c @ s"

definition pad :: "runtime \<Rightarrow> number \<Rightarrow> jsstring" where
  "pad rt v = padStart 2 0x30 (Number_toString rt v)"

text \<open>
  The date expression of \<open>parseDateString\<close>: four digits, a separator (\<^verbatim>\<open>-\<close>,
  \<^verbatim>\<open>/\<close>, \<^verbatim>\<open>.\<close> or U+5E74), one or two digits, a separator (\<^verbatim>\<open>-\<close>, \<^verbatim>\<open>/\<close>,
  \<^verbatim>\<open>.\<close> or U+6708), one or two digits.
  \<open>iso_match\<close> is its leftmost match, with the three groups. Both quantifiers are
  greedy; the month gives a digit back only when the match cannot be completed with two.
\<close>

definition isYearSep :: "nat \<Rightarrow> bool" where
  "isYearSep c \<longleftrightarrow> c = 0x2d \<or> c = 0x2f \<or> c = 0x5e74 \<or> c = 0x2e"

definition isMonthSep :: "nat \<Rightarrow> bool" where
  "isMonthSep c \<longleftrightarrow> c = 0x2d \<or> c = 0x2f \<or> c = 0x6708 \<or> c = 0x2e"

fun match_day :: "jsstring \<Rightarrow> jsstring option" where
  "match_day (a # b # r) =
     (if isDigit a then (if isDigit b then Some [a, b] else Some [a]) else None)"
| "match_day [a] = (if isDigit a then Some [a] else None)"
| "match_day [] = None"

fun match_month2 :: "jsstring \<Rightarrow> (jsstring \<times> jsstring) option" where
  "match_month2 (a # b # c # r) =
     (if isDigit a \<and> isDigit b \<and> isMonthSep c
      then map_option (Pair [a, b]) (match_day r) else None)"
| "match_month2 _ = None"

fun match_month1 :: "jsstring \<Rightarrow> (jsstring \<times> jsstring) option" where
  "match_month1 (a # c # r) =
     (if isDigit a \<and> isMonthSep c then map_option (Pair [a]) (match_day r) else None)"
| "match_month1 _ = None"

definition match_month_day :: "jsstring \<Rightarrow> (jsstring \<times> jsstring) option" where
  "match_month_day s =
     (case match_month2 s of Some md \<Rightarrow> Some md | None \<Rightarrow> match_month1 s)"

fun match_at :: "jsstring \<Rightarrow> (jsstring \<times> jsstring \<times> jsstring) option" where
  "match_at (y1 # y2 # y3 # y4 # p # r) =
     (if isDigit y1 \<and> isDigit y2 \<and> isDigit y3 \<and> isDigit y4 \<and> isYearSep p
      then map_option (Pair [y1, y2, y3, y4]) (match_month_day r) else None)"
| "match_at _ = None"

fun iso_match :: "jsstring \<Rightarrow> (jsstring \<times> jsstring \<times> jsstring) option" where
  "iso_match [] = None"
| "iso_match (c # cs) =
     (case match_at (c # cs) of Some g \<Rightarrow> Some g | None \<Rightarrow> iso_match cs)"

definition parseDateString :: "runtime \<Rightarrow> jsstring \<Rightarrow> jsstring option" where
  "parseDateString rt input =
     (let normalized = normalizeText rt input \<lparr>lowercase = Some False\<rparr>
      in case iso_match normalized of
           None \<Rightarrow> None
         | Some (year, month, day) \<Rightarrow>
             (let y = parseInt10 year;
                  m = parseInt10 month;
                  d = parseInt10 day
              in if Number_isNaN y \<or> Number_isNaN m \<or> Number_isNaN d then None
                 else Some (Number_toString rt y @ str ''-'' @ pad rt m @ str ''-''
                            @ pad rt d)))"

definition normalizeNumberInput :: "runtime \<Rightarrow> jsstring \<Rightarrow> number option" where
  "normalizeNumberInput rt input =
     (let normalized = normalizeText rt input \<lparr>lowercase = None\<rparr>
      in if normalized = [] then None
         else (let numeric = Number (filter (\<lambda>c. c \<noteq> 0x2c) normalized)
               in if Number_isFinite numeric then Some numeric else None))"

record EqualsOptions = NormalizeOptions +
  caseInsensitive :: "bool option"
  normalizeZh :: "bool option"

text \<open>
  The only exception the two modules can raise: in \<open>equalsText\<close>, with \<open>normalizeZh\<close>
  set, the read \<^verbatim>\<open>zhSynonyms[expected]\<close> can yield a value that is not a string; it is
  passed to \<open>normalizeText\<close>, where \<^verbatim>\<open>input.split\<close> is then not a function.
\<close>

datatype js_error = TypeError

definition equalsText ::
  "runtime \<Rightarrow> jsstring \<Rightarrow> jsstring \<Rightarrow> EqualsOptions \<Rightarrow> js_error + bool" where
  "equalsText rt input expected options =
     (let lc = \<lparr>lowercase = Some (or_else (caseInsensitive options) True)\<rparr>;
          normalizedInput = normalizeText rt input lc;
          normalizedExpected =
            (if normalizeZh options = Some True
             then or_else (get_property zhSynonyms expected) (JString expected)
             else JString expected)
      in case normalizedExpected of
           JString e \<Rightarrow> Inr (normalizedInput = normalizeText rt e lc)
         | _ \<Rightarrow> Inl TypeError)"

section \<open>types.ts and grading.ts\<close>

text \<open>
  An optional field of a rule or a question is an \<open>option\<close> (\<open>None\<close> when the field is
  absent). Of a question only \<^verbatim>\<open>id\<close> and \<^verbatim>\<open>score\<close> are read. \<open>OtherRule\<close> stands for
  a rule whose \<^verbatim>\<open>mode\<close> is none of the four.

  The four records that \<open>summarizeObjective\<close> reads by question id
  (\<^verbatim>\<open>Record<string, ...>\<close>: the two answer maps and the two maps of user responses) are
  plain objects, like the lookup tables of \<^verbatim>\<open>normalize.ts\<close>. A record is kept as the
  map of its own properties. What a read \<^verbatim>\<open>record[id]\<close> yields is a \<open>nullable\<close>:
  \<^verbatim>\<open>undefined\<close>, \<^verbatim>\<open>null\<close>, a value of the declared type, or, when the record has no
  own property of that name and \<^verbatim>\<open>Object.prototype\<close> has one, the inherited member
  (\<open>Inherited\<close>, which is never a string).
\<close>

datatype 'a nullable = Undefined | Null | Given 'a | Inherited jsval

type_synonym 'a js_record = "jsstring \<rightharpoonup> 'a nullable"

definition read :: "'a js_record \<Rightarrow> jsstring \<Rightarrow> 'a nullable" where
  "read obj k =
     (case obj k of
        Some v \<Rightarrow> v
      | None \<Rightarrow> (case Object_prototype k of Some m \<Rightarrow> Inherited m | None \<Rightarrow> Undefined))"

datatype answer_value = Text jsstring | Numeric number

datatype FillinRule =
    TextRule "jsstring option" "jsstring list option" "bool option" "bool option"
  | RegexRule jsstring
  | NumberRule number "number option"
  | DateRule "jsstring option" "jsstring list option"
  | OtherRule jsstring

record Question =
  qid :: jsstring
  qscore :: "number option"

record QuizData =
  quiz_mcq :: "Question list"
  quiz_fillins :: "Question list"

record AnswerData =
  answers_mcq :: "number js_record"
  answers_fillins :: "FillinRule js_record"

record SectionSummary =
  correctIds :: "jsstring list"
  incorrectIds :: "jsstring list"
  score :: number
  total :: number

record ObjectiveSummary =
  mcq :: SectionSummary
  fillins :: SectionSummary
  totalScore :: number
  totalPossible :: number

text \<open>
  \<^verbatim>\<open>Number(value)\<close> on what a read yields: \<^verbatim>\<open>undefined\<close> is NaN, \<^verbatim>\<open>null\<close> is 0, and
  an object is converted through its \<^verbatim>\<open>toString\<close>.
\<close>

fun ToNumber :: "number nullable \<Rightarrow> number" where
  "ToNumber Undefined = NaN"
| "ToNumber Null = Finite False 0 0"
| "ToNumber (Given n) = n"
| "ToNumber (Inherited v) = Number (ToString v)"

definition gradeMcq :: "number nullable \<Rightarrow> number nullable \<Rightarrow> bool" where
  "gradeMcq userChoiceIdx answerIdx =
     (if userChoiceIdx = Null \<or> userChoiceIdx = Undefined then False
      else strict_equals (ToNumber userChoiceIdx) (ToNumber answerIdx))"

text \<open>\<^verbatim>\<open>Array.prototype.some\<close> with a callback that can throw.\<close>

fun some :: "('a \<Rightarrow> js_error + bool) \<Rightarrow> 'a list \<Rightarrow> js_error + bool" where
  "some f [] = Inr False"
| "some f (x # xs) =
     (case f x of Inl e \<Rightarrow> Inl e | Inr True \<Rightarrow> Inr True | Inr False \<Rightarrow> some f xs)"

datatype console_entry = Warn jsstring

text \<open>
  \<^verbatim>\<open>equalsText\<close>, \<^verbatim>\<open>normalizeNumberInput\<close> and \<^verbatim>\<open>parseDateString\<close> begin by passing
  their input to \<^verbatim>\<open>normalizeText\<close>, whose first step is \<^verbatim>\<open>input.split\<close>: called on a
  value that is not a string they raise a TypeError.
\<close>

definition string_call :: "jsval \<Rightarrow> (jsstring \<Rightarrow> js_error + 'a) \<Rightarrow> js_error + 'a" where
  "string_call v f = (case v of JString s \<Rightarrow> f s | _ \<Rightarrow> Inl TypeError)"

text \<open>
  \<open>gradeFillin\<close> returns what it wrote to the console (the warning names the
  pattern) and either the verdict or the exception that leaves it. \<open>val\<close> is the
  \<^verbatim>\<open>value\<close> of the source: the string of a number, and otherwise the input itself,
  which is a string unless the caller read it off \<^verbatim>\<open>Object.prototype\<close>;
  \<^verbatim>\<open>regex.test\<close> converts its argument to a string.
\<close>

definition gradeFillin ::
  "runtime \<Rightarrow> answer_value nullable \<Rightarrow> FillinRule \<Rightarrow> console_entry list \<times> (js_error + bool)"
  where
  "gradeFillin rt userInput rule =
     (if userInput = Null \<or> userInput = Undefined \<or> userInput = Given (Text [])
      then ([], Inr False)
      else
        let val = (case userInput of
                     Given (Numeric n) \<Rightarrow> JString (Number_toString rt n)
                   | Given (Text s) \<Rightarrow> JString s
                   | Inherited v \<Rightarrow> v
                   | _ \<Rightarrow> JString [])
        in case rule of
             TextRule answer accept ci nz \<Rightarrow>
               (let options = \<lparr>lowercase = None,
                      caseInsensitive = Some (or_else ci True),
                      normalizeZh = Some (or_else nz False)\<rparr>
                in if accept \<noteq> None \<and> or_else accept [] \<noteq> []
                   then ([], some (\<lambda>candidate.
                                     string_call val (\<lambda>s. equalsText rt s candidate options))
                                  (or_else accept []))
                   else if answer \<noteq> None \<and> answer \<noteq> Some []
                   then ([], string_call val
                               (\<lambda>s. equalsText rt s (or_else answer []) options))
                   else ([], Inr False))
           | RegexRule pattern \<Rightarrow>
               (case RegExp rt pattern of
                  Some test \<Rightarrow> ([], Inr (test (ToString val)))
                | None \<Rightarrow> ([Warn pattern], Inr False))
           | NumberRule answer tolerance \<Rightarrow>
               (let userNumber =
                      (case userInput of
                         Given (Numeric n) \<Rightarrow> Inr (Some n)
                       | _ \<Rightarrow> string_call val (\<lambda>s. Inr (normalizeNumberInput rt s)))
                in case userNumber of
                     Inl e \<Rightarrow> ([], Inl e)
                   | Inr None \<Rightarrow> ([], Inr False)
                   | Inr (Some n) \<Rightarrow>
                       (let tol = or_else tolerance (num 0)
                        in ([], Inr (num_le (Math_abs (num_sub n answer))
                                            (num_add tol Number_EPSILON)))))
           | DateRule answer accept \<Rightarrow>
               (let accepted = filter (\<lambda>c. c \<noteq> [])
                                 ((case answer of None \<Rightarrow> [] | Some a \<Rightarrow> [a])
                                  @ or_else accept [])
                in case string_call val (\<lambda>s. Inr (parseDateString rt s)) of
                     Inl e \<Rightarrow> ([], Inl e)
                   | Inr normalizedUser \<Rightarrow>
                       if normalizedUser = None \<or> normalizedUser = Some []
                       then ([], Inr False)
                       else if accepted = [] then ([], Inr False)
                       else ([], Inr (list_ex (\<lambda>candidate. parseDateString rt candidate
                                                            = normalizedUser) accepted)))
           | OtherRule tag \<Rightarrow> ([], Inr False))"

definition getScore :: "Question \<Rightarrow> number" where
  "getScore question = or_else (qscore question) (num 1)"

definition empty_section :: SectionSummary where
  "empty_section = \<lparr>correctIds = [], incorrectIds = [], score = num 0, total = num 0\<rparr>"

text \<open>
  The two callbacks of \<open>summarizeObjective\<close> update the accumulator alike, from the
  verdict and from whether the question was attempted: that update is \<open>tally\<close>.
\<close>

definition tally :: "SectionSummary \<Rightarrow> Question \<Rightarrow> bool \<Rightarrow> bool \<Rightarrow> SectionSummary" where
  "tally acc item correct attempted =
     (let sc = getScore item;
          acc = acc\<lparr>total := num_add (total acc) sc\<rparr>
      in if correct
         then acc\<lparr>score := num_add (score acc) sc, correctIds := correctIds acc @ [qid item]\<rparr>
         else if attempted then acc\<lparr>incorrectIds := incorrectIds acc @ [qid item]\<rparr>
         else acc)"

text \<open>
  The verdict of one question, and whether the user attempted it, as the two callbacks
  of \<open>summarizeObjective\<close> compute them from the reads \<^verbatim>\<open>userMcq[item.id]\<close>,
  \<^verbatim>\<open>answers.mcq[item.id]\<close>, \<^verbatim>\<open>answers.fillins[item.id]\<close> and
  \<^verbatim>\<open>userFillins[item.id]\<close>. A fill-in question whose rule is \<^verbatim>\<open>undefined\<close> is graded
  false, and an absent answer is graded as the empty string. An inherited member read
  as the rule is an object without a \<^verbatim>\<open>mode\<close>, which \<open>gradeFillin\<close> treats as a rule
  of no known kind; an inherited member read as the answer is passed on as it is.
\<close>

definition mcq_verdict :: "AnswerData \<Rightarrow> number js_record \<Rightarrow> Question \<Rightarrow> bool" where
  "mcq_verdict answers userMcq item =
     gradeMcq (read userMcq (qid item)) (read (answers_mcq answers) (qid item))"

definition mcq_attempted :: "number js_record \<Rightarrow> Question \<Rightarrow> bool" where
  "mcq_attempted userMcq item \<longleftrightarrow>
     read userMcq (qid item) \<noteq> Null \<and> read userMcq (qid item) \<noteq> Undefined"

definition nullish_to_empty :: "answer_value nullable \<Rightarrow> answer_value nullable" where
  "nullish_to_empty user = (if user = Null \<or> user = Undefined then Given (Text []) else user)"

definition fillin_verdict ::
  "runtime \<Rightarrow> AnswerData \<Rightarrow> answer_value js_record \<Rightarrow> Question \<Rightarrow> js_error + bool" where
  "fillin_verdict rt answers userFillins item =
     (case read (answers_fillins answers) (qid item) of
        Given rule \<Rightarrow>
          snd (gradeFillin rt (nullish_to_empty (read userFillins (qid item))) rule)
      | Inherited m \<Rightarrow>
          snd (gradeFillin rt (nullish_to_empty (read userFillins (qid item))) (OtherRule []))
      | _ \<Rightarrow> Inr False)"

definition fillin_attempted :: "answer_value js_record \<Rightarrow> Question \<Rightarrow> bool" where
  "fillin_attempted userFillins item \<longleftrightarrow>
     read userFillins (qid item) \<noteq> Null \<and> read userFillins (qid item) \<noteq> Undefined
     \<and> read userFillins (qid item) \<noteq> Given (Text [])"

definition mcq_step ::
  "AnswerData \<Rightarrow> number js_record \<Rightarrow> SectionSummary \<Rightarrow> Question \<Rightarrow> SectionSummary"
  where
  "mcq_step answers userMcq acc item =
     tally acc item (mcq_verdict answers userMcq item) (mcq_attempted userMcq item)"

definition fillin_step ::
  "runtime \<Rightarrow> AnswerData \<Rightarrow> answer_value js_record \<Rightarrow> SectionSummary \<Rightarrow> Question
     \<Rightarrow> js_error + SectionSummary" where
  "fillin_step rt answers userFillins acc item =
     (case fillin_verdict rt answers userFillins item of
        Inl e \<Rightarrow> Inl e
      | Inr correct \<Rightarrow> Inr (tally acc item correct (fillin_attempted userFillins item)))"

text \<open>\<^verbatim>\<open>Array.prototype.reduce\<close> with a callback that can throw.\<close>

fun reduce :: "('b \<Rightarrow> 'a \<Rightarrow> js_error + 'b) \<Rightarrow> 'a list \<Rightarrow> 'b \<Rightarrow> js_error + 'b" where
  "reduce f [] acc = Inr acc"
| "reduce f (x # xs) acc = (case f acc x of Inl e \<Rightarrow> Inl e | Inr acc' \<Rightarrow> reduce f xs acc')"

definition summarizeObjective ::
  "runtime \<Rightarrow> QuizData \<Rightarrow> AnswerData \<Rightarrow> number js_record \<Rightarrow> answer_value js_record
     \<Rightarrow> js_error + ObjectiveSummary" where
  "summarizeObjective rt quiz answers userMcq userFillins =
     (let mcqResult = foldl (mcq_step answers userMcq) empty_section (quiz_mcq quiz)
      in case reduce (fillin_step rt answers userFillins) (quiz_fillins quiz) empty_section of
           Inl e \<Rightarrow> Inl e
         | Inr fillinResult \<Rightarrow>
             Inr \<lparr>mcq = mcqResult, fillins = fillinResult,
                  totalScore = num_add (score mcqResult) (score fillinResult),
                  totalPossible = num_add (total mcqResult) (total fillinResult)\<rparr>)"

section \<open>A reference run time\<close>

text \<open>
  An instance of the parameters, used to evaluate the model on concrete inputs. Its
  \<open>toLowerCase\<close> maps the letters A to Z and nothing else, which is the Unicode
  mapping on every string whose cased letters are ASCII. Its \<open>RegExp\<close> knows the
  patterns without syntax characters, which match as substrings, and reports every other
  pattern as not compiling. Its \<open>shortest_digits\<close> prints the exact binary value.
\<close>

definition ascii_lower :: "jsstring \<Rightarrow> jsstring" where
  "ascii_lower s = map (\<lambda>c. if 0x41 \<le> c \<and> c \<le> 0x5a then c + 0x20 else c) s"

fun contains :: "jsstring \<Rightarrow> jsstring \<Rightarrow> bool" where
  "contains p [] = (p = [])"
| "contains p (c # cs) = (take (length p) (c # cs) = p \<or> contains p cs)"

definition isSyntaxCharacter :: "nat \<Rightarrow> bool" where
  "isSyntaxCharacter c \<longleftrightarrow>
     c \<in> {0x5e, 0x24, 0x5c, 0x2e, 0x2a, 0x2b, 0x3f, 0x28, 0x29, 0x5b, 0x5d, 0x7b, 0x7d, 0x7c}"

definition literal_RegExp :: "jsstring \<Rightarrow> (jsstring \<Rightarrow> bool) option" where
  "literal_RegExp p =
     (if list_ex isSyntaxCharacter p then None else Some (contains p))"

definition fraction_digits :: "nat \<Rightarrow> nat \<Rightarrow> jsstring" where
  "fraction_digits k r =
     rev (dropWhile (\<lambda>c. c = 0x30) (rev (padStart k 0x30 (dec (r * 5 ^ k)))))"

fun exact_digits :: "number \<Rightarrow> jsstring" where
  "exact_digits (Finite s m e) =
     (if s then [0x2d] else [])
     @ (if 0 \<le> e then dec (m * 2 ^ nat e)
        else dec (m div 2 ^ nat (- e)) @ 0x2e # fraction_digits (nat (- e)) (m mod 2 ^ nat (- e)))"
| "exact_digits x = []"

definition ascii_runtime :: runtime where
  "ascii_runtime =
     \<lparr>toLowerCase = ascii_lower, RegExp = literal_RegExp, shortest_digits = exact_digits\<rparr>"

section \<open>An example quiz\<close>

text \<open>
  One single-choice question, answered wrongly, and two fill-in questions of weights 2
  and 3: the first answered correctly, the second left blank.
\<close>

definition example_quiz :: QuizData where
  "example_quiz =
     \<lparr>quiz_mcq = [\<lparr>qid = str ''m1'', qscore = None\<rparr>],
      quiz_fillins = [\<lparr>qid = str ''q1'', qscore = Some (num 2)\<rparr>,
                      \<lparr>qid = str ''q2'', qscore = Some (num 3)\<rparr>]\<rparr>"

definition example_answers :: AnswerData where
  "example_answers =
     \<lparr>answers_mcq = [str ''m1'' \<mapsto> Given (num 1)],
      answers_fillins = [str ''q1'' \<mapsto> Given (TextRule (Some (str ''x'')) None None None),
                         str ''q2'' \<mapsto> Given (TextRule (Some (str ''y'')) None None None)]\<rparr>"

definition example_userMcq :: "number js_record" where
  "example_userMcq = [str ''m1'' \<mapsto> Given (num 0)]"

definition example_userFillins :: "answer_value js_record" where
  "example_userFillins = [str ''q1'' \<mapsto> Given (Text (str ''X ''))]"

definition example_summary :: ObjectiveSummary where
  "example_summary =
     \<lparr>mcq = \<lparr>correctIds = [], incorrectIds = [str ''m1''], score = num 0, total = num 1\<rparr>,
      fillins = \<lparr>correctIds = [str ''q1''], incorrectIds = [], score = num 2, total = num 5\<rparr>,
      totalScore = num 2, totalPossible = num 6\<rparr>"

section \<open>Notions for the idempotence of \<open>normalizeText\<close>\<close>

text \<open>
  A code unit is half-width when \<open>toHalfWidth\<close> leaves it alone; a plain token is a
  non-empty string without white space. \<open>case_mapping\<close> collects what the proof of
  idempotence needs of the run time's \<open>toLowerCase\<close>: it maps the empty string to itself,
  works token by token (no context reaches across a space), is idempotent, keeps plain
  tokens plain and half-width text half-width, and leaves \<^verbatim>\<open>utc+8\<close> alone.
\<close>

definition half_width :: "nat \<Rightarrow> bool" where
  "half_width c \<longleftrightarrow> ToString (toHalfWidth_char c) = [c]"

definition plain_token :: "jsstring \<Rightarrow> bool" where
  "plain_token w \<longleftrightarrow> w \<noteq> [] \<and> list_all (\<lambda>c. \<not> isSpace c) w"

definition case_mapping :: "(jsstring \<Rightarrow> jsstring) \<Rightarrow> bool" where
  "case_mapping L \<longleftrightarrow>
     L [] = []
     \<and> (\<forall>a b. L (a @ 0x20 # b) = L a @ 0x20 # L b)
     \<and> (\<forall>x. L (L x) = L x)
     \<and> (\<forall>w. plain_token w \<longrightarrow> plain_token (L w))
     \<and> (\<forall>w. list_all half_width w \<longrightarrow> list_all half_width (L w))
     \<and> L (str ''utc+8'') = str ''utc+8''"

section \<open>Evaluation\<close>

text \<open>The defining equations, grouped for evaluating the model on concrete inputs.\<close>

lemmas string_eval = str_def Object_prototype_def get_property_def or_else_def
  FULLWIDTH_OFFSET_def fullWidthMap_def zhSynonyms_def toHalfWidth_char_def toHalfWidth_def
  isSpace_def trim_def normalizeWhitespace_def zh_word_def normalizeText_def Let_def

lemmas number_eval = bits.simps floor_log2_def round_half_even_def pack_def round_at_def
  round_to_double_def scaled_to_double_def signed_def align_def of_exact_def num_sub_def
  Number_EPSILON_def num_def decimal_def

lemmas parse_eval = isDigit_def isRadixDigit_def digit_of_def digits_value_def radix_of_def
  nondecimal_literal_def signed_integer_def exponent_part_def decimal_value_def
  decimal_parts_def after_integer_def decimal_literal_def numeric_literal_def Number_def
  digits_prefix_def signed_prefix_def parseInt10_def Number_isNaN_def dec.simps
  padStart_def pad_def

lemmas date_eval = isYearSep_def isMonthSep_def match_month_day_def parseDateString_def

lemmas runtime_eval = ascii_runtime_def ascii_lower_def literal_RegExp_def
  isSyntaxCharacter_def

lemmas example_eval = example_quiz_def example_answers_def example_userMcq_def
  example_userFillins_def example_summary_def

lemmas summary_eval = getScore_def empty_section_def tally_def mcq_verdict_def
  mcq_attempted_def fillin_verdict_def fillin_attempted_def mcq_step_def fillin_step_def
  summarizeObjective_def gradeMcq_def read_def nullish_to_empty_def string_call_def

section \<open>The aggregation: \<open>summarizeObjective\<close>\<close>


lemma tally_fold:
  "foldl (\<lambda>acc q. tally acc q (c q) (a q)) acc qs =
     \<lparr>correctIds = correctIds acc @ map qid (filter c qs),
      incorrectIds = incorrectIds acc @ map qid (filter (\<lambda>q. \<not> c q \<and> a q) qs),
      score = foldl num_add (score acc) (map getScore (filter c qs)),
      total = foldl num_add (total acc) (map getScore qs)\<rparr>"
  by (induction qs arbitrary: acc) (simp_all add: tally_def Let_def)

lemma mcq_fold:
  "foldl (mcq_step answers userMcq) acc qs =
     foldl (\<lambda>acc q. tally acc q (mcq_verdict answers userMcq q) (mcq_attempted userMcq q)) acc qs"
proof -
  have "mcq_step answers userMcq =
          (\<lambda>acc q. tally acc q (mcq_verdict answers userMcq q) (mcq_attempted userMcq q))"
    by (intro ext) (simp add: mcq_step_def)
  then show ?thesis by simp
qed

lemma reduce_fillin_step:
  "reduce (fillin_step rt answers uf) qs acc =
     (if list_ex (\<lambda>q. fillin_verdict rt answers uf q = Inl TypeError) qs then Inl TypeError
      else Inr (foldl (\<lambda>acc q. tally acc q (fillin_verdict rt answers uf q = Inr True)
                                (fillin_attempted uf q)) acc qs))"
proof (induction qs arbitrary: acc)
  case Nil
  show ?case by simp
next
  case (Cons q qs)
  show ?case
  proof (cases "fillin_verdict rt answers uf q")
    case (Inl e)
    then have "fillin_step rt answers uf acc q = Inl TypeError"
      by (cases e) (simp add: fillin_step_def)
    with Inl show ?thesis by (cases e) simp
  next
    case (Inr b)
    then have "fillin_step rt answers uf acc q = Inr (tally acc q b (fillin_attempted uf q))"
      by (simp add: fillin_step_def)
    with Inr show ?thesis by (simp add: Cons.IH)
  qed
qed

lemma summarizeObjective_returns:
  "summarizeObjective rt quiz answers userMcq userFillins =
     (if list_ex (\<lambda>q. fillin_verdict rt answers userFillins q = Inl TypeError)
           (quiz_fillins quiz)
      then Inl TypeError
      else Inr \<lparr>mcq = foldl (mcq_step answers userMcq) empty_section (quiz_mcq quiz),
                fillins = foldl (\<lambda>acc q. tally acc q
                                   (fillin_verdict rt answers userFillins q = Inr True)
                                   (fillin_attempted userFillins q))
                            empty_section (quiz_fillins quiz),
                totalScore = num_add
                  (score (foldl (mcq_step answers userMcq) empty_section (quiz_mcq quiz)))
                  (score (foldl (\<lambda>acc q. tally acc q
                                   (fillin_verdict rt answers userFillins q = Inr True)
                                   (fillin_attempted userFillins q))
                            empty_section (quiz_fillins quiz))),
                totalPossible = num_add
                  (total (foldl (mcq_step answers userMcq) empty_section (quiz_mcq quiz)))
                  (total (foldl (\<lambda>acc q. tally acc q
                                   (fillin_verdict rt answers userFillins q = Inr True)
                                   (fillin_attempted userFillins q))
                            empty_section (quiz_fillins quiz)))\<rparr>)"
  by (simp add: summarizeObjective_def reduce_fillin_step Let_def)

lemma summary_sections:
  assumes "summarizeObjective rt quiz answers userMcq userFillins = Inr S"
  shows "mcq S =
           \<lparr>correctIds = map qid (filter (mcq_verdict answers userMcq) (quiz_mcq quiz)),
            incorrectIds = map qid (filter (\<lambda>q. \<not> mcq_verdict answers userMcq q
                                               \<and> mcq_attempted userMcq q) (quiz_mcq quiz)),
            score = foldl num_add (num 0)
                      (map getScore (filter (mcq_verdict answers userMcq) (quiz_mcq quiz))),
            total = foldl num_add (num 0) (map getScore (quiz_mcq quiz))\<rparr>"
    and "fillins S =
           \<lparr>correctIds = map qid (filter (\<lambda>q. fillin_verdict rt answers userFillins q = Inr True)
                                      (quiz_fillins quiz)),
            incorrectIds = map qid (filter (\<lambda>q. fillin_verdict rt answers userFillins q \<noteq> Inr True
                                               \<and> fillin_attempted userFillins q)
                                      (quiz_fillins quiz)),
            score = foldl num_add (num 0)
                      (map getScore (filter (\<lambda>q. fillin_verdict rt answers userFillins q = Inr True)
                                       (quiz_fillins quiz))),
            total = foldl num_add (num 0) (map getScore (quiz_fillins quiz))\<rparr>"
    and "totalScore S = num_add (score (mcq S)) (score (fillins S))"
    and "totalPossible S = num_add (total (mcq S)) (total (fillins S))"
  using assms
  by (auto simp: summarizeObjective_returns mcq_fold tally_fold empty_section_def
           split: if_splits)

lemma ids_disjoint:
  assumes "\<And>q q'. qid q = qid q' \<Longrightarrow> c q = c q'"
  shows "set (map qid (filter c qs)) \<inter> set (map qid (filter (\<lambda>q. \<not> c q \<and> a q) qs)) = {}"
proof -
  have False if "q \<in> set qs" "c q" "q' \<in> set qs" "\<not> c q'" "qid q = qid q'" for q q'
    using that assms [of q q'] by simp
  then show ?thesis by auto
qed

lemma ids_subseq: "subseq (map qid (filter P qs)) (map qid qs)"
  by (simp add: subseq_map)

lemma ids_distinct: "distinct (map qid qs) \<Longrightarrow> distinct (map qid (filter P qs))"
  by (simp add: distinct_map_filter)

lemma summarizeObjective_example:
  "summarizeObjective ascii_runtime example_quiz example_answers example_userMcq
     example_userFillins = Inr example_summary"
  by (simp add: example_eval summary_eval gradeFillin_def equalsText_def string_eval
        runtime_eval number_eval)

text \<open>
  The four records are read without an own-property check. For an id that names no
  member of \<^verbatim>\<open>Object.prototype\<close> a read yields the record's own property or
  \<^verbatim>\<open>undefined\<close>; for an id that names one, and is not a key of the record, it yields
  the inherited member. Such a question, never touched by the user, counts as attempted:
  it is pushed to \<open>incorrectIds\<close>, and when its rule calls one of the functions of
  \<^verbatim>\<open>normalize.ts\<close> the grading raises a TypeError.
\<close>

lemma read_own:
  "Object_prototype k = None \<Longrightarrow> read obj k = (case obj k of Some v \<Rightarrow> v | None \<Rightarrow> Undefined)"
  by (simp add: read_def split: option.split)

lemma read_inherited:
  "obj k = None \<Longrightarrow> Object_prototype k = Some m \<Longrightarrow> read obj k = Inherited m"
  by (simp add: read_def)

lemma gradeFillin_inherited:
  assumes "\<And>s. v \<noteq> JString s"
  shows "answer \<noteq> [] \<Longrightarrow>
           gradeFillin rt (Inherited v) (TextRule (Some answer) None ci nz) = ([], Inl TypeError)"
    and "gradeFillin rt (Inherited v) (NumberRule a tolerance) = ([], Inl TypeError)"
    and "gradeFillin rt (Inherited v) (DateRule d accept) = ([], Inl TypeError)"
    and "gradeFillin rt (Inherited v) (OtherRule tag) = ([], Inr False)"
  using assms by (cases v; simp add: gradeFillin_def string_call_def Let_def)+

lemma summarizeObjective_inherited_ids:
  "summarizeObjective ascii_runtime
     \<lparr>quiz_mcq = [\<lparr>qid = str ''toString'', qscore = None\<rparr>],
      quiz_fillins = [\<lparr>qid = str ''constructor'', qscore = None\<rparr>]\<rparr>
     \<lparr>answers_mcq = Map.empty, answers_fillins = Map.empty\<rparr>
     Map.empty
     Map.empty
   = Inr \<lparr>mcq = \<lparr>correctIds = [], incorrectIds = [str ''toString''],
                    score = num 0, total = num 1\<rparr>,
            fillins = \<lparr>correctIds = [], incorrectIds = [str ''constructor''],
                        score = num 0, total = num 1\<rparr>,
            totalScore = num 0, totalPossible = num 2\<rparr>"
  by (simp add: summary_eval gradeFillin_def string_eval parse_eval number_eval)

lemma summarizeObjective_inherited_throws:
  "summarizeObjective ascii_runtime
     \<lparr>quiz_mcq = [], quiz_fillins = [\<lparr>qid = str ''toString'', qscore = None\<rparr>]\<rparr>
     \<lparr>answers_mcq = Map.empty,
      answers_fillins = [str ''toString'' \<mapsto> Given (TextRule (Some (str ''x'')) None None None)]\<rparr>
     Map.empty
     Map.empty
   = Inl TypeError"
  by (simp add: summary_eval gradeFillin_def string_eval)

text \<open>
  Claim C2. For every quiz and answer snapshot \<open>summarizeObjective\<close> is to yield the two
  section summaries (\<open>summary_sections\<close> gives them whenever a summary is returned,
  \<open>summarizeObjective_example\<close> is the case of the weights 2 and 3). It does not yield
  one for every snapshot: a text rule with \<open>normalizeZh\<close> whose expected answer is the
  name of a property that every object inherits, here \<^verbatim>\<open>toString\<close>, makes the grading
  of any non-empty answer raise a TypeError, and the summary is lost with it.
\<close>

theorem summarizeObjective_throws:
  "summarizeObjective ascii_runtime
     \<lparr>quiz_mcq = [], quiz_fillins = [\<lparr>qid = str ''q1'', qscore = None\<rparr>]\<rparr>
     \<lparr>answers_mcq = Map.empty,
      answers_fillins =
        [str ''q1'' \<mapsto> Given (TextRule (Some (str ''toString'')) None None (Some True))]\<rparr>
     Map.empty
     [str ''q1'' \<mapsto> Given (Text (str ''x''))]
   = Inl TypeError"
  by (simp add: summary_eval gradeFillin_def equalsText_def string_eval runtime_eval)

text \<open>
  Claim C10, as stated: within a section no id occurs twice in \<open>correctIds\<close>. Two
  questions that share an id are both graded with the one answer stored under it, and
  the id is appended once for each.
\<close>

theorem duplicate_ids_counterexample:
  "(case summarizeObjective ascii_runtime
           \<lparr>quiz_mcq = [\<lparr>qid = str ''q'', qscore = None\<rparr>, \<lparr>qid = str ''q'', qscore = None\<rparr>],
            quiz_fillins = []\<rparr>
           \<lparr>answers_mcq = [str ''q'' \<mapsto> Given (num 0)], answers_fillins = Map.empty\<rparr>
           [str ''q'' \<mapsto> Given (num 0)]
           Map.empty
    of Inl e \<Rightarrow> False
     | Inr S \<Rightarrow> correctIds (mcq S) = [str ''q'', str ''q''] \<and> \<not> distinct (correctIds (mcq S)))"
  by (simp add: summary_eval string_eval number_eval)

text \<open>
  Claim C10, amended. Every summary that \<open>summarizeObjective\<close> returns satisfies: within
  each section \<open>correctIds\<close> and \<open>incorrectIds\<close> are disjoint, and each is a subsequence
  of the ids of that section's questions in their declaration order, hence without
  repetition when the section declares no id twice; \<open>totalScore\<close> is the sum of the two
  section scores and \<open>totalPossible\<close> the sum of the two section totals.
\<close>

theorem summary_invariants:
  assumes "summarizeObjective rt quiz answers userMcq userFillins = Inr S"
  shows "set (correctIds (mcq S)) \<inter> set (incorrectIds (mcq S)) = {}
       \<and> set (correctIds (fillins S)) \<inter> set (incorrectIds (fillins S)) = {}
       \<and> subseq (correctIds (mcq S)) (map qid (quiz_mcq quiz))
       \<and> subseq (incorrectIds (mcq S)) (map qid (quiz_mcq quiz))
       \<and> subseq (correctIds (fillins S)) (map qid (quiz_fillins quiz))
       \<and> subseq (incorrectIds (fillins S)) (map qid (quiz_fillins quiz))
       \<and> (distinct (map qid (quiz_mcq quiz))
            \<longrightarrow> distinct (correctIds (mcq S)) \<and> distinct (incorrectIds (mcq S)))
       \<and> (distinct (map qid (quiz_fillins quiz))
            \<longrightarrow> distinct (correctIds (fillins S)) \<and> distinct (incorrectIds (fillins S)))
       \<and> totalScore S = num_add (score (mcq S)) (score (fillins S))
       \<and> totalPossible S = num_add (total (mcq S)) (total (fillins S))"
proof -
  note sec = summary_sections [OF assms]
  have m: "set (correctIds (mcq S)) \<inter> set (incorrectIds (mcq S)) = {}"
    unfolding sec(1) by (simp only: SectionSummary.simps, rule ids_disjoint)
      (simp add: mcq_verdict_def)
  have f: "set (correctIds (fillins S)) \<inter> set (incorrectIds (fillins S)) = {}"
    unfolding sec(2) by (simp only: SectionSummary.simps, rule ids_disjoint)
      (simp add: fillin_verdict_def cong: nullable.case_cong)
  show ?thesis
    using m f sec(3,4)
    by (simp add: sec(1,2) ids_subseq ids_distinct)
qed

theorem summary_invariants_witness:
  "summarizeObjective ascii_runtime example_quiz example_answers example_userMcq
     example_userFillins = Inr example_summary
   \<and> distinct (map qid (quiz_mcq example_quiz))
   \<and> distinct (map qid (quiz_fillins example_quiz))
   \<and> set (correctIds (mcq example_summary)) \<inter> set (incorrectIds (mcq example_summary)) = {}
   \<and> set (correctIds (fillins example_summary))
       \<inter> set (incorrectIds (fillins example_summary)) = {}
   \<and> subseq (incorrectIds (mcq example_summary)) (map qid (quiz_mcq example_quiz))
   \<and> subseq (correctIds (fillins example_summary)) (map qid (quiz_fillins example_quiz))
   \<and> distinct (incorrectIds (mcq example_summary))
   \<and> distinct (correctIds (fillins example_summary))
   \<and> totalScore example_summary
       = num_add (score (mcq example_summary)) (score (fillins example_summary))
   \<and> totalPossible example_summary
       = num_add (total (mcq example_summary)) (total (fillins example_summary))"
proof -
  have d: "distinct (map qid (quiz_mcq example_quiz))"
    "distinct (map qid (quiz_fillins example_quiz))"
    by (simp_all add: example_quiz_def str_def)
  show ?thesis
    using d summarizeObjective_example summary_invariants [OF summarizeObjective_example]
    by simp
qed

section \<open>The normalizer\<close>

text \<open>
  Claim C1, as stated: with the default \<open>normalizeZh = false\<close>, \<open>equalsText\<close> of the
  phrase for Beijing time (U+5317 U+4EAC U+65F6 U+95F4) and \<^verbatim>\<open>utc+8\<close> is false. It is
  true: \<open>normalizeText\<close> replaces the token on the input side whatever \<open>normalizeZh\<close>
  says.
\<close>

theorem equalsText_default_counterexample:
  "equalsText ascii_runtime [0x5317, 0x4eac, 0x65f6, 0x95f4] (str ''utc+8'')
     \<lparr>lowercase = None, caseInsensitive = None, normalizeZh = None\<rparr> = Inr True"
  by (simp add: equalsText_def string_eval runtime_eval)

text \<open>
  Claim C1, amended. \<open>equalsText\<close> looks the expected string up in the synonym table as
  a whole only when \<open>normalizeZh\<close> is true, and never the input; both sides then pass
  through \<open>normalizeText\<close>, whose token-wise substitution does not depend on
  \<open>normalizeZh\<close>. Hence \<open>equalsText\<close> of the phrase for Beijing time and
  \<^verbatim>\<open>utc+8\<close> is true with \<open>normalizeZh\<close> true and also with the default. (The run time's \<open>toLowerCase\<close> is
  only asked to leave the two strings as they are.)
\<close>

theorem equalsText_synonyms:
  "(normalizeZh options \<noteq> Some True \<longrightarrow>
      equalsText rt input expected options =
        Inr (normalizeText rt input \<lparr>lowercase = Some (or_else (caseInsensitive options) True)\<rparr>
             = normalizeText rt expected
                 \<lparr>lowercase = Some (or_else (caseInsensitive options) True)\<rparr>))
   \<and> (normalizeZh options = Some True \<and> get_property zhSynonyms expected = Some (JString e) \<longrightarrow>
      equalsText rt input expected options =
        Inr (normalizeText rt input \<lparr>lowercase = Some (or_else (caseInsensitive options) True)\<rparr>
             = normalizeText rt e \<lparr>lowercase = Some (or_else (caseInsensitive options) True)\<rparr>))
   \<and> (normalizeZh options = Some True \<and> get_property zhSynonyms expected = None \<longrightarrow>
      equalsText rt input expected options =
        Inr (normalizeText rt input \<lparr>lowercase = Some (or_else (caseInsensitive options) True)\<rparr>
             = normalizeText rt expected
                 \<lparr>lowercase = Some (or_else (caseInsensitive options) True)\<rparr>))
   \<and> (toLowerCase rt [0x5317, 0x4eac, 0x65f6, 0x95f4] = [0x5317, 0x4eac, 0x65f6, 0x95f4]
        \<and> toLowerCase rt (str ''utc+8'') = str ''utc+8'' \<longrightarrow>
      equalsText rt [0x5317, 0x4eac, 0x65f6, 0x95f4] (str ''utc+8'')
        \<lparr>lowercase = None, caseInsensitive = None, normalizeZh = Some True\<rparr> = Inr True
      \<and> equalsText rt [0x5317, 0x4eac, 0x65f6, 0x95f4] (str ''utc+8'')
        \<lparr>lowercase = None, caseInsensitive = None, normalizeZh = None\<rparr> = Inr True)"
proof (intro conjI impI)
  assume "toLowerCase rt [0x5317, 0x4eac, 0x65f6, 0x95f4] = [0x5317, 0x4eac, 0x65f6, 0x95f4]
        \<and> toLowerCase rt (str ''utc+8'') = str ''utc+8''"
  then have l: "toLowerCase rt [0x5317, 0x4eac, 0x65f6, 0x95f4] = [0x5317, 0x4eac, 0x65f6, 0x95f4]"
    "toLowerCase rt [117, 116, 99, 43, 56] = [117, 116, 99, 43, 56]"
    by (simp_all add: str_def)
  show "equalsText rt [0x5317, 0x4eac, 0x65f6, 0x95f4] (str ''utc+8'')
        \<lparr>lowercase = None, caseInsensitive = None, normalizeZh = Some True\<rparr> = Inr True"
    by (simp add: equalsText_def string_eval l)
  show "equalsText rt [0x5317, 0x4eac, 0x65f6, 0x95f4] (str ''utc+8'')
        \<lparr>lowercase = None, caseInsensitive = None, normalizeZh = None\<rparr> = Inr True"
    by (simp add: equalsText_def string_eval l)
qed (simp_all add: equalsText_def Let_def or_else_def)

theorem equalsText_synonyms_witness:
  "normalizeZh \<lparr>lowercase = None, caseInsensitive = None, normalizeZh = None\<rparr> \<noteq> Some True
   \<and> get_property zhSynonyms [0x5317, 0x4eac, 0x65f6, 0x95f4] = Some (JString (str ''utc+8''))
   \<and> get_property zhSynonyms (str ''abc'') = None
   \<and> toLowerCase ascii_runtime [0x5317, 0x4eac, 0x65f6, 0x95f4] = [0x5317, 0x4eac, 0x65f6, 0x95f4]
   \<and> toLowerCase ascii_runtime (str ''utc+8'') = str ''utc+8''
   \<and> equalsText ascii_runtime [0x5317, 0x4eac, 0x65f6, 0x95f4] (str ''utc+8'')
        \<lparr>lowercase = None, caseInsensitive = None, normalizeZh = Some True\<rparr> = Inr True
   \<and> equalsText ascii_runtime [0x5317, 0x4eac, 0x65f6, 0x95f4] (str ''utc+8'')
        \<lparr>lowercase = None, caseInsensitive = None, normalizeZh = None\<rparr> = Inr True
   \<and> equalsText ascii_runtime (str ''UTC+8'') [0x5317, 0x4eac, 0x65f6, 0x95f4]
        \<lparr>lowercase = None, caseInsensitive = None, normalizeZh = Some True\<rparr> = Inr True
   \<and> equalsText ascii_runtime (str ''ABC '') (str ''abc'')
        \<lparr>lowercase = None, caseInsensitive = None, normalizeZh = Some True\<rparr> = Inr True"
proof -
  have l: "toLowerCase ascii_runtime [0x5317, 0x4eac, 0x65f6, 0x95f4] = [0x5317, 0x4eac, 0x65f6, 0x95f4]
        \<and> toLowerCase ascii_runtime (str ''utc+8'') = str ''utc+8''"
    by (simp add: runtime_eval str_def)
  have g: "get_property zhSynonyms [0x5317, 0x4eac, 0x65f6, 0x95f4] = Some (JString (str ''utc+8''))"
    "get_property zhSynonyms (str ''abc'') = None"
    by (simp_all add: get_property_def zhSynonyms_def Object_prototype_def str_def)
  have n: "normalizeText ascii_runtime (str ''UTC+8'') \<lparr>lowercase = Some True\<rparr>
           = normalizeText ascii_runtime (str ''utc+8'') \<lparr>lowercase = Some True\<rparr>"
    "normalizeText ascii_runtime (str ''ABC '') \<lparr>lowercase = Some True\<rparr>
           = normalizeText ascii_runtime (str ''abc'') \<lparr>lowercase = Some True\<rparr>"
    by (simp_all add: string_eval runtime_eval)
  show ?thesis
    using l g n
      equalsText_synonyms [where rt = ascii_runtime
        and options = "\<lparr>lowercase = None, caseInsensitive = None, normalizeZh = None\<rparr>"]
      equalsText_synonyms [where rt = ascii_runtime
        and options = "\<lparr>lowercase = None, caseInsensitive = None, normalizeZh = Some True\<rparr>"
        and input = "str ''UTC+8''" and expected = "[0x5317, 0x4eac, 0x65f6, 0x95f4]"
        and e = "str ''utc+8''"]
      equalsText_synonyms [where rt = ascii_runtime
        and options = "\<lparr>lowercase = None, caseInsensitive = None, normalizeZh = Some True\<rparr>"
        and input = "str ''ABC ''" and expected = "str ''abc''"]
    by (simp add: or_else_def)
qed

subsection \<open>Idempotence of \<open>normalizeText\<close>, inherited property names apart\<close>

lemma proto_single: "Object_prototype [c] = None"
  by (simp add: Object_prototype_def str_def)

lemma ascii_half_width: "c < 0x2018 \<Longrightarrow> half_width c"
  by (simp add: half_width_def toHalfWidth_char_def get_property_def fullWidthMap_def
        proto_single or_else_def str_def)

lemma half_width_image: "list_all half_width (ToString (toHalfWidth_char c))"
proof -
  consider "0xff10 \<le> c \<and> c \<le> 0xff19" | "0xff21 \<le> c \<and> c \<le> 0xff3a"
    | "0xff41 \<le> c \<and> c \<le> 0xff5a"
    | "\<not> (0xff10 \<le> c \<and> c \<le> 0xff19)" "\<not> (0xff21 \<le> c \<and> c \<le> 0xff3a)"
      "\<not> (0xff41 \<le> c \<and> c \<le> 0xff5a)"
    by blast
  then show ?thesis
  proof cases
    case 1
    then have "c - FULLWIDTH_OFFSET < 0x2018" unfolding FULLWIDTH_OFFSET_def by linarith
    with 1 show ?thesis by (simp add: toHalfWidth_char_def ascii_half_width)
  next
    case 2
    then have "c - 0xfee0 < 0x2018" by linarith
    with 2 show ?thesis by (simp add: toHalfWidth_char_def ascii_half_width)
  next
    case 3
    then have "c - 0xfee0 < 0x2018" by linarith
    with 3 show ?thesis by (simp add: toHalfWidth_char_def ascii_half_width)
  next
    case 4
    show ?thesis
    proof (cases "map_of fullWidthMap [c]")
      case None
      with 4 have "toHalfWidth_char c = JString [c]"
        by (auto simp: toHalfWidth_char_def get_property_def proto_single or_else_def)
      then show ?thesis by (simp add: half_width_def)
    next
      case (Some v)
      then have "list_all (\<lambda>x. x < 0x2018) v"
        by (auto simp: fullWidthMap_def str_def split: if_splits)
      then have "list_all half_width v"
        by (auto simp: list_all_iff ascii_half_width)
      with 4 Some show ?thesis
        by (auto simp: toHalfWidth_char_def get_property_def or_else_def)
    qed
  qed
qed

lemma toHalfWidth_half_width: "list_all half_width (toHalfWidth s)"
  by (induction s) (simp_all add: toHalfWidth_def half_width_image)

lemma toHalfWidth_fixed: "list_all half_width s \<Longrightarrow> toHalfWidth s = s"
  by (induction s) (simp_all add: toHalfWidth_def half_width_def)

lemma join_space_Cons: "c # join_space (w # ws) = join_space ((c # w) # ws)"
  by (cases ws) simp_all

lemma join_space_append:
  "ws \<noteq> [] \<Longrightarrow> join_space (w # ws) = w @ 0x20 # join_space ws"
  by (cases ws) simp_all

text \<open>The shape of what \<open>replace_spaces\<close> returns on a string that does not end in a space.\<close>

lemma replace_spaces_tokens:
  "t \<noteq> [] \<Longrightarrow> \<not> isSpace (last t) \<Longrightarrow>
     \<exists>ws. ws \<noteq> [] \<and> list_all plain_token ws
          \<and> replace_spaces t = (if isSpace (hd t) then 0x20 # join_space ws else join_space ws)"
proof (induction t rule: replace_spaces.induct)
  case 1
  then show ?case by simp
next
  case (2 c cs)
  show ?case
  proof (cases "isSpace c")
    case True
    define d where "d = dropWhile isSpace cs"
    from True "2.prems" have cs: "cs \<noteq> []" "\<not> isSpace (last cs)"
      by (auto split: if_splits)
    then have "\<exists>x\<in>set cs. \<not> isSpace x" by (meson last_in_set)
    then have d: "d \<noteq> []" by (simp add: d_def)
    then have hd: "\<not> isSpace (hd d)" unfolding d_def by (rule hd_dropWhile)
    have "last d = last cs" unfolding d_def using d
      by (metis d_def last_appendR takeWhile_dropWhile_id)
    with cs have "\<not> isSpace (last d)" by simp
    with "2.IH"(1) [OF True] d hd obtain ws
      where "ws \<noteq> []" "list_all plain_token ws" "replace_spaces d = join_space ws"
      by (auto simp: d_def)
    with True show ?thesis by (auto simp: d_def)
  next
    case False
    show ?thesis
    proof (cases "cs = []")
      case True
      with False have "list_all plain_token [[c]]" "replace_spaces (c # cs) = join_space [[c]]"
        by (simp_all add: plain_token_def)
      with False show ?thesis by (intro exI [of _ "[[c]]"]) simp
    next
      case ne: False
      with "2.prems" have "\<not> isSpace (last cs)" by simp
      with "2.IH"(2) [OF False ne] obtain ws
        where ws: "ws \<noteq> []" "list_all plain_token ws"
          "replace_spaces cs = (if isSpace (hd cs) then 0x20 # join_space ws else join_space ws)"
        by blast
      show ?thesis
      proof (cases "isSpace (hd cs)")
        case True
        with ws False have "replace_spaces (c # cs) = join_space ([c] # ws)"
          by (simp add: join_space_append)
        moreover from False ws have "list_all plain_token ([c] # ws)"
          by (simp add: plain_token_def)
        ultimately show ?thesis using False by (intro exI [of _ "[c] # ws"]) simp
      next
        case nsp: False
        from ws obtain w ws' where w: "ws = w # ws'" by (cases ws) auto
        with ws nsp False have "replace_spaces (c # cs) = join_space ((c # w) # ws')"
          by (simp add: join_space_Cons)
        moreover from False ws w have "list_all plain_token ((c # w) # ws')"
          by (simp add: plain_token_def)
        ultimately show ?thesis using False by (intro exI [of _ "(c # w) # ws'"]) simp
      qed
    qed
  qed
qed

lemma trim_ends:
  "trim s = [] \<or> (\<not> isSpace (hd (trim s)) \<and> \<not> isSpace (last (trim s)))"
proof (cases "trim s = []")
  case True
  then show ?thesis by simp
next
  case False
  define a where "a = dropWhile isSpace s"
  define b where "b = dropWhile isSpace (rev a)"
  from False have b: "b \<noteq> []" by (simp add: trim_def a_def b_def)
  then have "\<not> isSpace (hd b)" unfolding b_def by (rule hd_dropWhile)
  with b have l: "\<not> isSpace (last (rev b))" by (simp add: last_rev)
  from b have a: "a \<noteq> []" by (auto simp: b_def)
  then have ha: "\<not> isSpace (hd a)" unfolding a_def by (rule hd_dropWhile)
  have "rev a = takeWhile isSpace (rev a) @ b" by (simp add: b_def)
  then have "a = rev b @ rev (takeWhile isSpace (rev a))"
    by (metis rev_append rev_rev_ident)
  with b have "hd a = hd (rev b)" by (metis hd_append2 rev_is_Nil_conv)
  with ha l show ?thesis by (simp add: trim_def a_def b_def)
qed

lemma normalizeWhitespace_tokens:
  "normalizeWhitespace s = []
   \<or> (\<exists>ws. ws \<noteq> [] \<and> list_all plain_token ws \<and> normalizeWhitespace s = join_space ws)"
proof (cases "trim s = []")
  case True
  then show ?thesis by (simp add: normalizeWhitespace_def)
next
  case False
  with trim_ends [of s] have "\<not> isSpace (hd (trim s))" "\<not> isSpace (last (trim s))" by auto
  with replace_spaces_tokens [OF False] show ?thesis
    by (auto simp: normalizeWhitespace_def)
qed

lemma replace_spaces_token:
  "list_all (\<lambda>c. \<not> isSpace c) w \<Longrightarrow> replace_spaces (w @ r) = w @ replace_spaces r"
  by (induction w) simp_all

lemma replace_spaces_join:
  "list_all plain_token ws \<Longrightarrow> replace_spaces (join_space ws) = join_space ws"
proof (induction ws rule: join_space.induct)
  case 1
  show ?case by simp
next
  case (2 w)
  then show ?case using replace_spaces_token [of w "[]"] by (simp add: plain_token_def)
next
  case (3 w v ws)
  from "3.prems" have v: "v \<noteq> []" "\<not> isSpace (hd v)"
    by (cases v; simp add: plain_token_def)+
  then have "join_space (v # ws) \<noteq> []" "\<not> isSpace (hd (join_space (v # ws)))"
    by (cases ws; simp)+
  then have "dropWhile isSpace (join_space (v # ws)) = join_space (v # ws)"
    by (cases "join_space (v # ws)") simp_all
  moreover have "isSpace 0x20" by (simp add: isSpace_def)
  ultimately show ?case using 3
    by (simp add: plain_token_def replace_spaces_token)
qed

lemma join_space_ends:
  assumes "ws \<noteq> []" "list_all plain_token ws"
  shows "join_space ws \<noteq> [] \<and> \<not> isSpace (hd (join_space ws))
       \<and> \<not> isSpace (last (join_space ws))"
  using assms
proof (induction ws rule: join_space.induct)
  case 1
  then show ?case by simp
next
  case (2 w)
  then show ?case by (cases w) (auto simp: plain_token_def list_all_iff)
next
  case (3 w v ws)
  then have "join_space (v # ws) \<noteq> []" "\<not> isSpace (last (join_space (v # ws)))" by simp_all
  moreover from "3.prems" have "w \<noteq> []" "\<not> isSpace (hd w)"
    by (cases w; simp add: plain_token_def)+
  ultimately show ?case by simp
qed

lemma trim_fixed:
  assumes "t \<noteq> []" "\<not> isSpace (hd t)" "\<not> isSpace (last t)"
  shows "trim t = t"
proof -
  from assms have "dropWhile isSpace t = t" by (cases t) simp_all
  moreover from assms have "dropWhile isSpace (rev t) = rev t"
    by (cases "rev t") (simp_all add: last_rev [symmetric] hd_rev)
  ultimately show ?thesis by (simp add: trim_def)
qed

lemma normalizeWhitespace_join:
  "ws \<noteq> [] \<Longrightarrow> list_all plain_token ws \<Longrightarrow>
     normalizeWhitespace (join_space ws) = join_space ws"
  using join_space_ends [of ws]
  by (simp add: normalizeWhitespace_def trim_fixed replace_spaces_join)

lemma replace_spaces_chars: "set (replace_spaces t) \<subseteq> insert 0x20 (set t)"
proof (induction t rule: replace_spaces.induct)
  case 1
  show ?case by simp
next
  case (2 c cs)
  have "set (dropWhile isSpace cs) \<subseteq> set cs" by (rule set_dropWhileD [THEN subsetI])
  with 2 show ?case by (cases "isSpace c") auto
qed

lemma normalizeWhitespace_half_width:
  assumes "list_all half_width s"
  shows "list_all half_width (normalizeWhitespace s)"
proof -
  have "set (trim s) \<subseteq> set s"
    unfolding trim_def by (auto dest!: set_dropWhileD)
  with replace_spaces_chars [of "trim s"]
  have "set (normalizeWhitespace s) \<subseteq> insert 0x20 (set s)"
    by (auto simp: normalizeWhitespace_def)
  moreover have "half_width 0x20" by (rule ascii_half_width) simp
  ultimately show ?thesis using assms by (auto simp: list_all_iff)
qed

lemma split_space_token:
  "0x20 \<notin> set w \<Longrightarrow> split_space (w @ 0x20 # r) = w # split_space r"
  by (induction w) auto

lemma split_space_single: "0x20 \<notin> set w \<Longrightarrow> split_space w = [w]"
  by (induction w) auto

lemma plain_token_no_space: "plain_token w \<Longrightarrow> 0x20 \<notin> set w"
  by (auto simp: plain_token_def list_all_iff isSpace_def)

lemma split_space_join:
  "ws \<noteq> [] \<Longrightarrow> list_all plain_token ws \<Longrightarrow> split_space (join_space ws) = ws"
proof (induction ws rule: join_space.induct)
  case 1
  then show ?case by simp
next
  case (2 w)
  then show ?case by (simp add: split_space_single plain_token_no_space)
next
  case (3 w v ws)
  then show ?case by (simp add: split_space_token plain_token_no_space)
qed

lemma case_mapping_join:
  assumes "case_mapping L" "ws \<noteq> []"
  shows "L (join_space ws) = join_space (map L ws)"
  using assms(2)
proof (induction ws rule: join_space.induct)
  case 1
  then show ?case by simp
next
  case (2 w)
  show ?case by simp
next
  case (3 w v ws)
  with assms(1) show ?case by (simp add: case_mapping_def)
qed

lemma join_space_all:
  "list_all P (join_space ws) \<Longrightarrow> w \<in> set ws \<Longrightarrow> list_all P w"
  by (induction ws rule: join_space.induct) auto

lemma all_join_space:
  "P 0x20 \<Longrightarrow> list_all (list_all P) ws \<Longrightarrow> list_all P (join_space ws)"
  by (induction ws rule: join_space.induct) auto

lemma zh_word_plain:
  assumes "Object_prototype w = None"
  shows "zh_word w = (case map_of zhSynonyms w of Some v \<Rightarrow> v | None \<Rightarrow> w)"
  using assms by (simp add: zh_word_def get_property_def or_else_def split: option.split)

lemma zhSynonyms_value: "map_of zhSynonyms w = Some v \<Longrightarrow> v = str ''utc+8''"
  by (auto simp: zhSynonyms_def split: if_splits)

lemma utc_facts:
  "plain_token (str ''utc+8'')" "list_all half_width (str ''utc+8'')"
  "Object_prototype (str ''utc+8'') = None" "zh_word (str ''utc+8'') = str ''utc+8''"
  by (simp_all add: plain_token_def isSpace_def ascii_half_width zh_word_def get_property_def
        or_else_def zhSynonyms_def Object_prototype_def str_def)

lemma zh_word_token:
  assumes "Object_prototype w = None" "plain_token w" "list_all half_width w" "L w = w"
    "L (str ''utc+8'') = str ''utc+8''"
  shows "plain_token (zh_word w) \<and> list_all half_width (zh_word w) \<and> L (zh_word w) = zh_word w
       \<and> zh_word (zh_word w) = zh_word w"
proof (cases "map_of zhSynonyms w")
  case None
  with assms show ?thesis by (simp add: zh_word_plain)
next
  case (Some v)
  then have "zh_word w = str ''utc+8''"
    using assms(1) zhSynonyms_value [OF Some] by (simp add: zh_word_plain)
  with assms(5) utc_facts show ?thesis by simp
qed

lemma normalizeText_empty:
  "toLowerCase rt [] = [] \<Longrightarrow> normalizeText rt [] \<lparr>lowercase = None\<rparr> = []"
  by (simp add: normalizeText_def toHalfWidth_def normalizeWhitespace_def trim_def zh_word_def
        get_property_def or_else_def zhSynonyms_def Object_prototype_def str_def)

lemma normalizeText_idempotent:
  assumes cm: "case_mapping (toLowerCase rt)"
    and np: "list_all (\<lambda>w. Object_prototype w = None)
               (split_space (toLowerCase rt (normalizeWhitespace (toHalfWidth s))))"
  shows "normalizeText rt (normalizeText rt s \<lparr>lowercase = None\<rparr>) \<lparr>lowercase = None\<rparr>
         = normalizeText rt s \<lparr>lowercase = None\<rparr>"
proof -
  define L where "L = toLowerCase rt"
  define c where "c = normalizeWhitespace (toHalfWidth s)"
  from cm have L0: "L [] = []" and Lidem: "\<And>x. L (L x) = L x"
    and Ltok: "\<And>w. plain_token w \<Longrightarrow> plain_token (L w)"
    and Lhw: "\<And>w. list_all half_width w \<Longrightarrow> list_all half_width (L w)"
    and Lutc: "L (str ''utc+8'') = str ''utc+8''"
    by (simp_all add: case_mapping_def L_def)
  have n1: "normalizeText rt s \<lparr>lowercase = None\<rparr> = join_space (map zh_word (split_space (L c)))"
    by (simp add: normalizeText_def L_def c_def)
  have hwc: "list_all half_width c"
    unfolding c_def by (intro normalizeWhitespace_half_width toHalfWidth_half_width)
  from normalizeWhitespace_tokens [of "toHalfWidth s"]
  consider "c = []" | ws where "ws \<noteq> []" "list_all plain_token ws" "c = join_space ws"
    unfolding c_def by blast
  then show ?thesis
  proof cases
    case 1
    then have "normalizeText rt s \<lparr>lowercase = None\<rparr> = []"
      by (simp add: n1 L0 zh_word_def get_property_def or_else_def zhSynonyms_def
            Object_prototype_def str_def)
    then show ?thesis using normalizeText_empty [OF L0 [unfolded L_def]] by simp
  next
    case 2
    define ls where "ls = map L ws"
    define ms where "ms = map zh_word ls"
    from cm 2 have Lc: "L c = join_space ls"
      by (simp add: case_mapping_join L_def ls_def)
    from 2 have ls: "ls \<noteq> []" "list_all plain_token ls"
      by (auto simp: ls_def list_all_iff Ltok)
    then have sp: "split_space (L c) = ls" by (simp add: Lc split_space_join)
    with np have proto: "list_all (\<lambda>w. Object_prototype w = None) ls"
      by (simp add: L_def c_def)
    have hwls: "list_all (list_all half_width) ls"
    proof -
      have "list_all half_width w" if "w \<in> set ws" for w
        using hwc that unfolding 2(3) by (rule join_space_all)
      then have "list_all half_width (L w)" if "w \<in> set ws" for w
        using that by (intro Lhw)
      then show ?thesis by (simp add: ls_def list_all_iff)
    qed
    have fixed: "list_all (\<lambda>w. L w = w) ls" by (simp add: ls_def list_all_iff Lidem)
    have tok: "plain_token (zh_word w) \<and> list_all half_width (zh_word w)
        \<and> L (zh_word w) = zh_word w \<and> zh_word (zh_word w) = zh_word w"
      if "w \<in> set ls" for w
    proof (rule zh_word_token)
      from that proto show "Object_prototype w = None" by (simp add: list_all_iff)
      from that ls show "plain_token w" by (simp add: list_all_iff)
      from that hwls show "list_all half_width w"
        unfolding list_all_iff [of "list_all half_width"] by blast
      from that fixed show "L w = w" by (simp add: list_all_iff)
      show "L (str ''utc+8'') = str ''utc+8''" by (rule Lutc)
    qed
    have ms1: "ms \<noteq> []" using ls by (simp add: ms_def)
    have ms2: "list_all plain_token ms" using tok by (simp add: ms_def list_all_iff)
    have ms3: "list_all (list_all half_width) ms"
      unfolding ms_def list_all_iff [of "list_all half_width"] using tok by simp
    have ms4: "map L ms = ms" unfolding ms_def using tok by (simp add: map_idI)
    have ms5: "map zh_word ms = ms" unfolding ms_def using tok by (simp add: map_idI)
    note ms = ms1 ms2 ms3 ms4 ms5
    have n1': "normalizeText rt s \<lparr>lowercase = None\<rparr> = join_space ms"
      by (simp add: n1 sp ms_def)
    have "half_width 0x20" by (rule ascii_half_width) simp
    with ms have "list_all half_width (join_space ms)" by (intro all_join_space)
    then have h: "toHalfWidth (join_space ms) = join_space ms" by (rule toHalfWidth_fixed)
    have w: "normalizeWhitespace (join_space ms) = join_space ms"
      using ms by (intro normalizeWhitespace_join)
    have l: "L (join_space ms) = join_space ms"
      using cm ms by (simp add: case_mapping_join L_def)
    have s: "split_space (join_space ms) = ms" using ms by (intro split_space_join)
    have "normalizeText rt (join_space ms) \<lparr>lowercase = None\<rparr> = join_space ms"
      using l by (simp add: normalizeText_def h w s ms L_def)
    then show ?thesis by (simp add: n1')
  qed
qed

lemma ascii_lower_case_mapping: "case_mapping ascii_lower"
proof -
  have sp: "\<not> isSpace (c + 32)" if "65 \<le> c" "c \<le> 90" for c
    using that by (auto simp: isSpace_def)
  have hw: "half_width (c + 32)" if "65 \<le> c" "c \<le> 90" for c
    using that by (intro ascii_half_width) simp
  show ?thesis
    unfolding case_mapping_def ascii_lower_def
    by (auto simp: plain_token_def list_all_iff str_def sp hw)
qed

lemma normalizeText_idempotent_ascii:
  "normalizeText ascii_runtime
     (normalizeText ascii_runtime (str ''  Full WIDTH '' @ [0xff21, 0x3000, 0x5317, 0x4eac, 0x65f6, 0x95f4])
        \<lparr>lowercase = None\<rparr>) \<lparr>lowercase = None\<rparr>
   = normalizeText ascii_runtime (str ''  Full WIDTH '' @ [0xff21, 0x3000, 0x5317, 0x4eac, 0x65f6, 0x95f4])
       \<lparr>lowercase = None\<rparr>"
  by (rule normalizeText_idempotent)
     (simp_all add: ascii_lower_case_mapping string_eval runtime_eval)

text \<open>
  Claim C8. \<open>normalizeText\<close> is to be idempotent. The token \<^verbatim>\<open>__proto__\<close> is not in
  the synonym table, but the read \<^verbatim>\<open>zhSynonyms["__proto__"]\<close> finds the inherited
  accessor and yields \<^verbatim>\<open>Object.prototype\<close>, which \<^verbatim>\<open>join\<close> prints as
  \<^verbatim>\<open>[object Object]\<close>; a second pass lowers the capital letter. (For a string none
  of whose tokens names an inherited property, \<open>normalizeText_idempotent\<close> above shows
  the second pass to change nothing.)
\<close>

theorem normalizeText_not_idempotent:
  "normalizeText ascii_runtime (str ''__proto__'') \<lparr>lowercase = None\<rparr> = str ''[object Object]''
   \<and> normalizeText ascii_runtime
         (normalizeText ascii_runtime (str ''__proto__'') \<lparr>lowercase = None\<rparr>)
         \<lparr>lowercase = None\<rparr> = str ''[object object]''"
  by (simp add: string_eval runtime_eval)

text \<open>
  Claim C6. \<open>normalizeNumberInput\<close> is to return \<^verbatim>\<open>null\<close> when nothing remains after
  the commas are stripped. The test for emptiness comes before the stripping, and
  \<^verbatim>\<open>Number("")\<close> is 0: a lone comma is read as the number 0.
\<close>

theorem normalizeNumberInput_comma:
  "normalizeNumberInput ascii_runtime (str '','') = Some (num 0)"
  by (simp add: normalizeNumberInput_def string_eval runtime_eval parse_eval number_eval)

subsection \<open>The form of a date that \<open>parseDateString\<close> returns\<close>

lemma bits_bounds: "0 < n \<Longrightarrow> 2 ^ (bits n - 1) \<le> n \<and> n < 2 ^ bits n"
proof (induction n rule: bits.induct)
  case (1 n)
  show ?case
  proof (cases "n div 2 = 0")
    case True
    with "1.prems" have "n = 1" by (simp add: div_eq_0_iff)
    then show ?thesis by (simp add: bits.simps)
  next
    case False
    with "1.prems" "1.IH" have ih: "2 ^ (bits (n div 2) - 1) \<le> n div 2"
      "n div 2 < 2 ^ bits (n div 2)" by simp_all
    have b: "bits n = Suc (bits (n div 2))" using "1.prems" by (subst bits.simps) simp
    from False have pos: "0 < bits (n div 2)" by (subst bits.simps) simp
    then have "(2::nat) ^ bits (n div 2) = 2 * 2 ^ (bits (n div 2) - 1)"
      by (cases "bits (n div 2)") simp_all
    with ih show ?thesis unfolding b by simp linarith
  qed
qed

lemma bits_le: "n < 2 ^ k \<Longrightarrow> bits n \<le> k"
proof (rule ccontr)
  assume a: "n < 2 ^ k" and b: "\<not> bits n \<le> k"
  then have "0 < n" by (cases "n = 0") (simp_all add: bits.simps)
  from bits_bounds [OF this] have lo: "2 ^ (bits n - 1) \<le> n" by simp
  from b have "k \<le> bits n - 1" by simp
  then have "(2::nat) ^ k \<le> 2 ^ (bits n - 1)" by (rule power_increasing) simp
  with lo a show False by linarith
qed

lemma round_half_even_1 [simp]: "round_half_even x (Suc 0) = x"
  by (simp add: round_half_even_def)

lemma round_small_integer:
  assumes "n < 2 ^ 53"
  shows "\<exists>m e. round_to_double sg n 1 = Finite sg m e \<and> safe_integer (Finite sg m e) = Some n"
proof (cases "n = 0")
  case True
  then show ?thesis by (simp add: round_to_double_def)
next
  case False
  then have pos: "0 < n" by simp
  define b where "b = bits n"
  from bits_bounds [OF pos] have lo: "2 ^ (b - 1) \<le> n" and hi: "n < 2 ^ b"
    by (simp_all add: b_def)
  from pos have b1: "1 \<le> b" unfolding b_def by (subst bits.simps) simp
  from assms have b53: "b \<le> 53" unfolding b_def by (rule bits_le)
  have bits1: "bits (Suc 0) = Suc 0" by (simp add: bits.simps)
  have fl: "floor_log2 n (Suc 0) (int b - 1) = int b - 1"
    using lo b1 by (simp add: floor_log2_def nat_diff_distrib)
  have e: "max (int b - 1 - 52) (- 1074) = int b - 53" using b1 by simp
  have r: "round_to_double sg n 1 = round_at sg n 1 (int b - 53)"
    using False by (simp add: round_to_double_def bits1 b_def [symmetric] fl e)
  define q where "q = n * 2 ^ (53 - b)"
  have q53: "q < 2 ^ 53"
  proof -
    have "q < 2 ^ b * 2 ^ (53 - b)" unfolding q_def using hi by simp
    also have "\<dots> = 2 ^ 53" using b53 by (simp add: power_add [symmetric])
    finally show ?thesis .
  qed
  have q0: "q \<noteq> 0" using pos by (simp add: q_def)
  have ra: "round_at sg n 1 (int b - 53) = Finite sg q (int b - 53)"
  proof (cases "b = 53")
    case True
    then show ?thesis using q0 q53 by (simp add: round_at_def pack_def q_def)
  next
    case False
    with b53 have "int b - 53 < 0" by simp
    moreover have "nat (53 - int b) = 53 - b" by simp
    ultimately show ?thesis using q0 q53 b53
      by (simp add: round_at_def pack_def q_def)
  qed
  have "safe_integer (Finite sg q (int b - 53)) = Some n"
  proof (cases "b = 53")
    case True
    then show ?thesis using assms by (simp add: q_def)
  next
    case False
    with b53 have "int b - 53 < 0" by simp
    moreover have "nat (53 - int b) = 53 - b" by simp
    ultimately show ?thesis by (simp add: q_def)
  qed
  with r ra show ?thesis by simp
qed

lemma Number_toString_small:
  "n < 2 ^ 53 \<Longrightarrow> Number_toString rt (round_to_double False n 1) = dec n"
  using round_small_integer [of n False] by auto

lemma digits_value_fold:
  "list_all isDigit ds \<Longrightarrow>
     foldl (\<lambda>a c. 10 * a + digit_of c) a ds < 10 ^ length ds * (a + 1)"
proof (induction ds arbitrary: a)
  case Nil
  show ?case by simp
next
  case (Cons c ds)
  from Cons.prems have d: "digit_of c \<le> 9" by (auto simp: digit_of_def isDigit_def)
  from Cons have "foldl (\<lambda>a c. 10 * a + digit_of c) (10 * a + digit_of c) ds
      < 10 ^ length ds * (10 * a + digit_of c + 1)" by simp
  also have "\<dots> \<le> 10 ^ length ds * (10 * (a + 1))"
    using d by (intro mult_le_mono2) simp
  finally show ?case by (simp add: algebra_simps)
qed

lemma digits_value_bound: "list_all isDigit ds \<Longrightarrow> digits_value 10 ds < 10 ^ length ds"
  using digits_value_fold [of ds 0] by (simp add: digits_value_def)

lemma match_day_digits:
  "match_day r = Some d \<Longrightarrow> d \<noteq> [] \<and> list_all isDigit d \<and> length d \<le> 2"
  by (induction r rule: match_day.induct) (auto split: if_splits)

lemma match_month_day_digits:
  assumes "match_month_day r = Some (m, d)"
  shows "m \<noteq> [] \<and> list_all isDigit m \<and> length m \<le> 2
       \<and> d \<noteq> [] \<and> list_all isDigit d \<and> length d \<le> 2"
proof -
  have two: "match_month2 r = Some (m, d) \<Longrightarrow> ?thesis"
    by (induction r rule: match_month2.induct)
       (auto split: if_splits dest: match_day_digits)
  have one: "match_month1 r = Some (m, d) \<Longrightarrow> ?thesis"
    by (induction r rule: match_month1.induct)
       (auto split: if_splits dest: match_day_digits)
  from assms two one show ?thesis
    by (auto simp: match_month_day_def split: option.splits)
qed

lemma match_at_digits:
  "match_at s = Some (y, m, d) \<Longrightarrow>
     length y = 4 \<and> list_all isDigit y
     \<and> m \<noteq> [] \<and> list_all isDigit m \<and> length m \<le> 2
     \<and> d \<noteq> [] \<and> list_all isDigit d \<and> length d \<le> 2"
  by (induction s rule: match_at.induct)
     (auto split: if_splits dest: match_month_day_digits)

lemma iso_match_digits:
  "iso_match s = Some (y, m, d) \<Longrightarrow>
     length y = 4 \<and> list_all isDigit y
     \<and> m \<noteq> [] \<and> list_all isDigit m \<and> length m \<le> 2
     \<and> d \<noteq> [] \<and> list_all isDigit d \<and> length d \<le> 2"
proof (induction s)
  case Nil
  then show ?case by simp
next
  case (Cons c cs)
  show ?case
  proof (cases "match_at (c # cs)")
    case None
    with Cons show ?thesis by simp
  next
    case (Some g)
    with Cons.prems have "match_at (c # cs) = Some (y, m, d)" by simp
    then show ?thesis by (rule match_at_digits)
  qed
qed

lemma parseInt10_digits:
  assumes "ds \<noteq> []" "list_all isDigit ds"
  shows "parseInt10 ds = round_to_double False (digits_value 10 ds) 1"
proof -
  from assms obtain c cs where ds: "ds = c # cs" and c: "isDigit c"
    by (cases ds) auto
  from c have nc: "\<not> isSpace c" "c \<noteq> 0x2d" "c \<noteq> 0x2b"
    by (auto simp: isDigit_def isSpace_def)
  from assms have tw: "takeWhile isDigit cs = cs"
    by (simp add: list_all_iff ds)
  from nc c show ?thesis
    by (simp add: parseInt10_def signed_prefix_def digits_prefix_def ds tw)
qed

lemma round_to_double_not_NaN: "round_to_double sg n d \<noteq> NaN"
  by (simp add: round_to_double_def round_at_def pack_def)

lemma two_digits:
  "m < 100 \<Longrightarrow> padStart 2 0x30 (dec m) = [0x30 + m div 10, 0x30 + m mod 10]"
proof (cases "m < 10")
  case True
  then show ?thesis by (simp add: padStart_def dec.simps)
next
  case False
  assume "m < 100"
  with False have "m div 10 < 10" "\<not> m < 10" by simp_all
  then show ?thesis
    by (simp add: padStart_def dec.simps [of m] dec.simps [of "m div 10"])
qed

lemma length_dec_year: "y < 10000 \<Longrightarrow> (length (dec y) = 4) = (1000 \<le> y)"
proof -
  assume y: "y < 10000"
  consider "y < 10" | "10 \<le> y" "y < 100" | "100 \<le> y" "y < 1000" | "1000 \<le> y"
    by linarith
  then show ?thesis
  proof cases
    case 1
    then show ?thesis by (simp add: dec.simps)
  next
    case 2
    then have "y div 10 < 10" by simp
    with 2 show ?thesis by (simp add: dec.simps [of y] dec.simps [of "y div 10"])
  next
    case 3
    then have "\<not> y div 10 < 10" "y div 10 div 10 < 10" by simp_all
    with 3 show ?thesis
      by (simp add: dec.simps [of y] dec.simps [of "y div 10"] dec.simps [of "y div 10 div 10"])
  next
    case 4
    with y have "\<not> y div 10 < 10" "\<not> y div 10 div 10 < 10" "y div 10 div 10 div 10 < 10"
      by simp_all
    with 4 show ?thesis
      by (simp add: dec.simps [of y] dec.simps [of "y div 10"] dec.simps [of "y div 10 div 10"]
            dec.simps [of "y div 10 div 10 div 10"])
  qed
qed

lemma parseDateString_format:
  assumes "parseDateString rt s = Some r"
  shows "\<exists>y m d. y < 10000 \<and> m < 100 \<and> d < 100
           \<and> r = dec y @ [0x2d, 0x30 + m div 10, 0x30 + m mod 10,
                          0x2d, 0x30 + d div 10, 0x30 + d mod 10]"
proof -
  from assms obtain ys ms ds
    where im: "iso_match (normalizeText rt s \<lparr>lowercase = Some False\<rparr>) = Some (ys, ms, ds)"
    by (auto simp: parseDateString_def Let_def split: option.splits)
  note dg = iso_match_digits [OF im]
  define y where "y = digits_value 10 ys"
  define m where "m = digits_value 10 ms"
  define d where "d = digits_value 10 ds"
  from dg have len: "length ys = 4" "length ms \<le> 2" "length ds \<le> 2" by simp_all
  have "y < 10 ^ length ys" unfolding y_def using dg by (intro digits_value_bound) simp
  with len have y: "y < 10000" by simp
  have "m < 10 ^ length ms" unfolding m_def using dg by (intro digits_value_bound) simp
  also have "\<dots> \<le> 10 ^ 2" using len by (intro power_increasing) simp_all
  finally have m: "m < 100" by simp
  have "d < 10 ^ length ds" unfolding d_def using dg by (intro digits_value_bound) simp
  also have "\<dots> \<le> 10 ^ 2" using len by (intro power_increasing) simp_all
  finally have d: "d < 100" by simp
  have py: "parseInt10 ys = round_to_double False y 1"
    unfolding y_def using dg len by (intro parseInt10_digits) auto
  have pm: "parseInt10 ms = round_to_double False m 1"
    unfolding m_def using dg by (intro parseInt10_digits) auto
  have pd: "parseInt10 ds = round_to_double False d 1"
    unfolding d_def using dg by (intro parseInt10_digits) auto
  have small: "y < 2 ^ 53" "m < 2 ^ 53" "d < 2 ^ 53" using y m d by simp_all
  from assms im have "r = Number_toString rt (parseInt10 ys) @ str ''-''
      @ pad rt (parseInt10 ms) @ str ''-'' @ pad rt (parseInt10 ds)"
    by (simp add: parseDateString_def Let_def py pm pd round_to_double_not_NaN Number_isNaN_def)
  then have "r = dec y @ [0x2d, 0x30 + m div 10, 0x30 + m mod 10,
                          0x2d, 0x30 + d div 10, 0x30 + d mod 10]"
    using m d
    by (simp add: py pm pd pad_def Number_toString_small [OF small(1), unfolded One_nat_def]
          Number_toString_small [OF small(2), unfolded One_nat_def]
          Number_toString_small [OF small(3), unfolded One_nat_def]
          two_digits str_def)
  with y m d show ?thesis by blast
qed

text \<open>
  Claim C7. A date that \<open>parseDateString\<close> returns is to have a four-digit year. The
  month and the day are padded; the year is printed as the number \<^verbatim>\<open>parseInt\<close> read,
  so the leading zeros of a year below 1000 are lost (\<open>parseDateString_format\<close> and
  \<open>length_dec_year\<close> above give the form of every returned date).
\<close>

theorem parseDateString_leading_zero_year:
  "parseDateString ascii_runtime (str ''0034-2-19'') = Some (str ''34-02-19'')"
  by (simp add: string_eval runtime_eval number_eval parse_eval date_eval)

lemma parseDateString_examples:
  "parseDateString ascii_runtime
     [0x32, 0x30, 0x33, 0x34, 0x5e74, 0x32, 0x6708, 0x31, 0x39, 0x65e5] = Some (str ''2034-02-19'')"
  "parseDateString ascii_runtime (str ''no date here'') = None"
  "parseDateString ascii_runtime (str ''2034-13-32'') = Some (str ''2034-13-32'')"
  by (simp_all add: string_eval runtime_eval number_eval parse_eval date_eval)

section \<open>The grader: \<open>gradeFillin\<close>\<close>

text \<open>
  Claim C3. For a number rule, a numeric input is used as it is and a text is coerced
  with \<open>normalizeNumberInput\<close>; a failed coercion grades false; otherwise the verdict
  is \<open>|userNumber - answer| \<le> tolerance + \<epsilon>\<close>, the tolerance defaulting to 0 and \<open>\<epsilon>\<close>
  being \<^verbatim>\<open>Number.EPSILON\<close>, the step from 1 to the next double. The text
  \<^verbatim>\<open>29.531\<close> is within 0.002 of 29.531 and \<^verbatim>\<open>29.6\<close> is not (the run time's
  \<open>toLowerCase\<close> is only asked to leave the two texts as they are).
\<close>

theorem gradeFillin_number:
  "gradeFillin rt (Given (Numeric x)) (NumberRule answer tolerance) =
     ([], Inr (num_le (Math_abs (num_sub x answer))
                      (num_add (or_else tolerance (num 0)) Number_EPSILON)))
   \<and> (s \<noteq> [] \<longrightarrow>
        gradeFillin rt (Given (Text s)) (NumberRule answer tolerance) =
          ([], Inr (case normalizeNumberInput rt s of
                      None \<Rightarrow> False
                    | Some n \<Rightarrow> num_le (Math_abs (num_sub n answer))
                                        (num_add (or_else tolerance (num 0)) Number_EPSILON))))
   \<and> num_add (num 1) Number_EPSILON = Finite False (2 ^ 52 + 1) (- 52)
   \<and> (toLowerCase rt (str ''29.531'') = str ''29.531'' \<longrightarrow>
        gradeFillin rt (Given (Text (str ''29.531'')))
          (NumberRule (decimal 29531 3) (Some (decimal 2 3))) = ([], Inr True))
   \<and> (toLowerCase rt (str ''29.6'') = str ''29.6'' \<longrightarrow>
        gradeFillin rt (Given (Text (str ''29.6'')))
          (NumberRule (decimal 29531 3) (Some (decimal 2 3))) = ([], Inr False))"
proof (intro conjI impI)
  show "gradeFillin rt (Given (Numeric x)) (NumberRule answer tolerance) =
     ([], Inr (num_le (Math_abs (num_sub x answer))
                      (num_add (or_else tolerance (num 0)) Number_EPSILON)))"
    by (simp add: gradeFillin_def)
  show "gradeFillin rt (Given (Text s)) (NumberRule answer tolerance) =
          ([], Inr (case normalizeNumberInput rt s of
                      None \<Rightarrow> False
                    | Some n \<Rightarrow> num_le (Math_abs (num_sub n answer))
                                        (num_add (or_else tolerance (num 0)) Number_EPSILON)))"
    if "s \<noteq> []"
    using that by (simp add: gradeFillin_def string_call_def split: option.split)
  show "num_add (num 1) Number_EPSILON = Finite False (2 ^ 52 + 1) (- 52)"
    by (simp add: number_eval)
  show "gradeFillin rt (Given (Text (str ''29.531'')))
          (NumberRule (decimal 29531 3) (Some (decimal 2 3))) = ([], Inr True)"
    if "toLowerCase rt (str ''29.531'') = str ''29.531''"
  proof -
    from that have "toLowerCase rt [50, 57, 46, 53, 51, 49] = [50, 57, 46, 53, 51, 49]"
      by (simp add: str_def)
    then show ?thesis
      by (simp add: gradeFillin_def string_call_def normalizeNumberInput_def string_eval
            parse_eval number_eval)
  qed
  show "gradeFillin rt (Given (Text (str ''29.6'')))
          (NumberRule (decimal 29531 3) (Some (decimal 2 3))) = ([], Inr False)"
    if "toLowerCase rt (str ''29.6'') = str ''29.6''"
  proof -
    from that have "toLowerCase rt [50, 57, 46, 54] = [50, 57, 46, 54]"
      by (simp add: str_def)
    then show ?thesis
      by (simp add: gradeFillin_def string_call_def normalizeNumberInput_def string_eval
            parse_eval number_eval)
  qed
qed

theorem gradeFillin_number_witness:
  "str ''29.6'' \<noteq> []
   \<and> toLowerCase ascii_runtime (str ''29.531'') = str ''29.531''
   \<and> toLowerCase ascii_runtime (str ''29.6'') = str ''29.6''
   \<and> gradeFillin ascii_runtime (Given (Text (str ''29.531'')))
        (NumberRule (decimal 29531 3) (Some (decimal 2 3))) = ([], Inr True)
   \<and> gradeFillin ascii_runtime (Given (Text (str ''29.6'')))
        (NumberRule (decimal 29531 3) (Some (decimal 2 3))) = ([], Inr False)
   \<and> gradeFillin ascii_runtime (Given (Text (str ''29.6''))) (NumberRule (decimal 296 1) None)
        = ([], Inr (case normalizeNumberInput ascii_runtime (str ''29.6'') of
                      None \<Rightarrow> False
                    | Some n \<Rightarrow> num_le (Math_abs (num_sub n (decimal 296 1)))
                                        (num_add (or_else None (num 0)) Number_EPSILON)))"
proof -
  have l: "str ''29.6'' \<noteq> []" "toLowerCase ascii_runtime (str ''29.531'') = str ''29.531''"
    "toLowerCase ascii_runtime (str ''29.6'') = str ''29.6''"
    by (simp_all add: runtime_eval str_def)
  show ?thesis
    using l gradeFillin_number [of ascii_runtime "num 0" "decimal 29531 3" "Some (decimal 2 3)" "str ''29.6''"]
      gradeFillin_number [of ascii_runtime "num 0" "decimal 296 1" None "str ''29.6''"]
    by simp
qed

lemma equalsText_returns:
  "normalizeZh options \<noteq> Some True \<Longrightarrow> \<exists>b. equalsText rt input expected options = Inr b"
  by (simp add: equalsText_def Let_def)

lemma some_returns:
  "(\<And>x. \<exists>b. f x = Inr b) \<Longrightarrow> \<exists>b. some f xs = Inr b"
proof (induction xs)
  case Nil
  show ?case by (simp add: exI [of _ False])
next
  case (Cons x xs)
  from Cons.prems obtain b where "f x = Inr b" by blast
  with Cons show ?case by (cases b) auto
qed

lemma gradeFillin_value:
  assumes "\<And>v. userInput \<noteq> Inherited v"
  shows "\<exists>s. (case userInput of
                Given (Numeric n) \<Rightarrow> JString (Number_toString rt n)
              | Given (Text s) \<Rightarrow> JString s
              | Inherited v \<Rightarrow> v
              | _ \<Rightarrow> JString []) = JString s"
proof (cases userInput)
  case (Given a)
  then show ?thesis by (cases a) simp_all
next
  case (Inherited v)
  with assms [of v] show ?thesis by simp
qed simp_all

lemma gradeFillin_throws_only:
  assumes "snd (gradeFillin rt userInput rule) = Inl e"
  shows "(\<exists>v. userInput = Inherited v)
       \<or> (\<exists>answer accept ci. rule = TextRule answer accept ci (Some True))"
proof (cases "\<exists>v. userInput = Inherited v")
  case True
  then show ?thesis by simp
next
  case False
  then obtain s where val: "(case userInput of
                Given (Numeric n) \<Rightarrow> JString (Number_toString rt n)
              | Given (Text s) \<Rightarrow> JString s
              | Inherited v \<Rightarrow> v
              | _ \<Rightarrow> JString []) = JString s"
    using gradeFillin_value [of userInput rt] by auto
  show ?thesis
  proof (cases rule)
    case (TextRule answer accept ci nz)
    show ?thesis
    proof (cases "nz = Some True")
      case True
      with TextRule show ?thesis by simp
    next
      case False
      define options where "options = \<lparr>lowercase = None,
        caseInsensitive = Some (or_else ci True), normalizeZh = Some (or_else nz False)\<rparr>"
      from False have nz: "normalizeZh options \<noteq> Some True"
        by (cases nz) (auto simp: options_def or_else_def)
      have "\<exists>b. snd (gradeFillin rt userInput rule) = Inr b"
        using equalsText_returns [OF nz] some_returns [of "\<lambda>c. equalsText rt s c options"]
        by (auto simp: gradeFillin_def TextRule Let_def val string_call_def
              options_def [symmetric])
      with assms show ?thesis by simp
    qed
  next
    case (RegexRule p)
    with assms show ?thesis
      by (auto simp: gradeFillin_def Let_def split: if_splits option.splits)
  next
    case (NumberRule a t)
    with assms show ?thesis
      by (auto simp: gradeFillin_def Let_def val string_call_def
            split: if_splits option.splits nullable.splits answer_value.splits)
  next
    case (DateRule a acc)
    with assms show ?thesis
      by (auto simp: gradeFillin_def Let_def val string_call_def split: if_splits option.splits)
  next
    case (OtherRule t)
    with assms show ?thesis
      by (auto simp: gradeFillin_def Let_def split: if_splits option.splits)
  qed
qed

lemma gradeFillin_empty:
  "gradeFillin rt Null rule = ([], Inr False)"
  "gradeFillin rt Undefined rule = ([], Inr False)"
  "gradeFillin rt (Given (Text [])) rule = ([], Inr False)"
  by (simp_all add: gradeFillin_def)

text \<open>
  Claim C4. Absent and empty input grade false at once, whatever the rule
  (\<open>gradeFillin_empty\<close>), and \<open>gradeFillin\<close> is never to throw. With \<open>normalizeZh\<close> set and
  the expected answer \<^verbatim>\<open>toString\<close>, the read \<^verbatim>\<open>zhSynonyms[expected]\<close> yields the
  inherited function, and grading any non-empty input raises a TypeError. (By
  \<open>gradeFillin_throws_only\<close> above, no other kind of rule can throw on an input of the
  declared type, a string or a number.)
\<close>

theorem gradeFillin_throws:
  "gradeFillin ascii_runtime (Given (Text (str ''x'')))
     (TextRule (Some (str ''toString'')) None None (Some True)) = ([], Inl TypeError)"
  by (simp add: gradeFillin_def string_call_def equalsText_def string_eval runtime_eval)

text \<open>
  Claim C5. For a regex rule and a non-empty input, the pattern is compiled and tested
  against the raw input (a number as its string); when the pattern does not compile,
  a warning is logged, the verdict is false and no exception leaves \<open>gradeFillin\<close>. So
  it is for the pattern \<^verbatim>\<open>(\<close>, which no engine compiles.
\<close>

theorem gradeFillin_regex:
  "(s \<noteq> [] \<longrightarrow>
      gradeFillin rt (Given (Text s)) (RegexRule pattern) =
        (case RegExp rt pattern of
           Some test \<Rightarrow> ([], Inr (test s))
         | None \<Rightarrow> ([Warn pattern], Inr False)))
   \<and> gradeFillin rt (Given (Numeric x)) (RegexRule pattern) =
        (case RegExp rt pattern of
           Some test \<Rightarrow> ([], Inr (test (Number_toString rt x)))
         | None \<Rightarrow> ([Warn pattern], Inr False))
   \<and> (RegExp rt (str ''('') = None \<longrightarrow>
        gradeFillin rt (Given (Text (str ''abc(''))) (RegexRule (str ''(''))
          = ([Warn (str ''('')], Inr False))"
  by (simp add: gradeFillin_def string_call_def str_def split: option.split)

theorem gradeFillin_regex_witness:
  "str ''abc('' \<noteq> [] \<and> RegExp ascii_runtime (str ''('') = None
   \<and> gradeFillin ascii_runtime (Given (Text (str ''abc(''))) (RegexRule (str ''(''))
        = ([Warn (str ''('')], Inr False)
   \<and> gradeFillin ascii_runtime (Given (Text (str ''abc(''))) (RegexRule (str ''bc''))
        = ([], Inr True)"
proof -
  have l: "str ''abc('' \<noteq> []" "RegExp ascii_runtime (str ''('') = None"
    "RegExp ascii_runtime (str ''bc'') = Some (contains (str ''bc''))"
    "contains (str ''bc'') (str ''abc('')"
    by (simp_all add: runtime_eval str_def)
  show ?thesis
    using l gradeFillin_regex [of "str ''abc(''" ascii_runtime "str ''(''" "num 0"]
      gradeFillin_regex [of "str ''abc(''" ascii_runtime "str ''bc''" "num 0"]
    by simp
qed

text \<open>
  Claim C9. The guard of \<open>gradeFillin\<close> rejects \<^verbatim>\<open>null\<close>, \<^verbatim>\<open>undefined\<close> and the
  empty string only: every other string, a single space among them, reaches the rules,
  and is graded true by the text rule that accepts just that string, and by every regex
  rule whose pattern matches it.
\<close>

theorem gradeFillin_whitespace_input:
  "gradeFillin rt Null rule = ([], Inr False)
   \<and> gradeFillin rt Undefined rule = ([], Inr False)
   \<and> gradeFillin rt (Given (Text [])) rule = ([], Inr False)
   \<and> (s \<noteq> [] \<longrightarrow>
        gradeFillin rt (Given (Text s)) (TextRule None (Some [s]) ci None) = ([], Inr True))
   \<and> gradeFillin rt (Given (Text (str '' ''))) (TextRule None (Some [str '' '']) ci None)
        = ([], Inr True)
   \<and> (RegExp rt pattern = Some test \<and> test (str '' '') \<longrightarrow>
        gradeFillin rt (Given (Text (str '' ''))) (RegexRule pattern) = ([], Inr True))"
  by (simp add: gradeFillin_def string_call_def equalsText_def or_else_def Let_def str_def)

theorem gradeFillin_whitespace_input_witness:
  "str '' '' \<noteq> [] \<and> RegExp ascii_runtime (str '' '') = Some (contains (str '' ''))
   \<and> contains (str '' '') (str '' '')
   \<and> gradeFillin ascii_runtime (Given (Text (str '' ''))) (RegexRule (str '' '')) = ([], Inr True)
   \<and> gradeFillin ascii_runtime (Given (Text (str '' '')))
        (TextRule None (Some [str '' '']) None None) = ([], Inr True)"
proof -
  have l: "str '' '' \<noteq> []" "RegExp ascii_runtime (str '' '') = Some (contains (str '' ''))"
    "contains (str '' '') (str '' '')"
    by (simp_all add: runtime_eval str_def)
  show ?thesis
    using l gradeFillin_whitespace_input
      [of ascii_runtime "RegexRule (str '' '')" "str '' ''" None "str '' ''" "contains (str '' '')"]
    by simp
qed

end
